theory Spec2Isabelle
  imports Complex_Main
begin

section \<open>Host values and host functions\<close>

text \<open>
  The interpreter module is TypeScript. Three things of its host language
  are used by the code and are modelled here once: the type \<open>number\<close>, the
  string functions \<open>parseFloat\<close>, \<open>isNaN\<close>, \<open>trim\<close> and \<open>split\<close>, and the
  regular expressions that the calculator and the SQL interpreter scan their
  input with.

  A string is a list of characters, each read as one code unit in the range
  0 to 255.

  A \<open>number\<close> is a real number or one of the three special values.
  Overflow and underflow of the results are modelled; the rounding of a
  finite result and the sign of zero are outside this model.
\<close>

datatype number = Finite real | NaN | PosInfinity | NegInfinity

text \<open>
  The errors that the code raises: the two \<open>Error\<close> objects of the
  calculator (division by zero, unknown operator), the \<open>Error\<close> of the SQL
  parser (unsupported syntax), and the \<open>TypeError\<close> that the host raises
  when a method is called on \<open>undefined\<close> or \<open>null\<close>.
\<close>

datatype error = DivisionByZero | UnknownOperator string | UnsupportedSQL | TypeError

text \<open>
  The result of an arithmetic operation on finite numbers, from its exact
  value: the host's doubles overflow to an infinity from \<open>2^1024 - 2^970\<close>
  on and underflow to 0 up to \<open>2^-1075\<close>. Between these bounds the exact
  value is kept: the rounding of the digits is outside this model.
\<close>

definition finiteResult :: "real \<Rightarrow> number" where
  "finiteResult x =
     (if \<bar>x\<bar> \<ge> 2 ^ 1024 - 2 ^ 970 then (if x < 0 then NegInfinity else PosInfinity)
      else if \<bar>x\<bar> * 2 ^ 1075 \<le> 1 then Finite 0
      else Finite x)"

definition numNeg :: "number \<Rightarrow> number" where
  "numNeg a =
     (case a of
        Finite x \<Rightarrow> Finite (- x)
      | NaN \<Rightarrow> NaN
      | PosInfinity \<Rightarrow> NegInfinity
      | NegInfinity \<Rightarrow> PosInfinity)"

definition numSign :: "number \<Rightarrow> int" where
  "numSign a =
     (case a of
        Finite x \<Rightarrow> (if x < 0 then - 1 else if x = 0 then 0 else 1)
      | NaN \<Rightarrow> 0
      | PosInfinity \<Rightarrow> 1
      | NegInfinity \<Rightarrow> - 1)"

definition signedInfinity :: "int \<Rightarrow> number" where
  "signedInfinity sg = (if sg = 0 then NaN else if sg < 0 then NegInfinity else PosInfinity)"

fun numAdd :: "number \<Rightarrow> number \<Rightarrow> number" where
  "numAdd NaN b = NaN"
| "numAdd a NaN = NaN"
| "numAdd (Finite x) (Finite y) = finiteResult (x + y)"
| "numAdd (Finite x) b = b"
| "numAdd a (Finite y) = a"
| "numAdd PosInfinity PosInfinity = PosInfinity"
| "numAdd NegInfinity NegInfinity = NegInfinity"
| "numAdd PosInfinity NegInfinity = NaN"
| "numAdd NegInfinity PosInfinity = NaN"

definition numSub :: "number \<Rightarrow> number \<Rightarrow> number" where
  "numSub a b = numAdd a (numNeg b)"

fun numMul :: "number \<Rightarrow> number \<Rightarrow> number" where
  "numMul NaN b = NaN"
| "numMul a NaN = NaN"
| "numMul (Finite x) (Finite y) = finiteResult (x * y)"
| "numMul a b = signedInfinity (numSign a * numSign b)"

text \<open>
  Division by a finite zero is written out as the host computes it
  (an infinity, or \<open>NaN\<close> for \<open>0 / 0\<close>), not as the \<open>x / 0 = 0\<close> of the
  reals.
\<close>

fun numDiv :: "number \<Rightarrow> number \<Rightarrow> number" where
  "numDiv NaN b = NaN"
| "numDiv a NaN = NaN"
| "numDiv (Finite x) (Finite y) =
     (if y = 0 then signedInfinity (numSign (Finite x)) else finiteResult (x / y))"
| "numDiv (Finite x) b = Finite 0"
| "numDiv a (Finite y) = signedInfinity (numSign a * (if y < 0 then - 1 else 1))"
| "numDiv a b = NaN"

subsection \<open>Character classes\<close>

definition isDigit :: "char \<Rightarrow> bool" where
  "isDigit c = (48 \<le> (of_char c :: nat) \<and> (of_char c :: nat) \<le> 57)"

definition isLetter :: "char \<Rightarrow> bool" where
  "isLetter c = ((65 \<le> (of_char c :: nat) \<and> (of_char c :: nat) \<le> 90) \<or>
                 (97 \<le> (of_char c :: nat) \<and> (of_char c :: nat) \<le> 122))"

definition isWordChar :: "char \<Rightarrow> bool" where
  "isWordChar c = (isLetter c \<or> isDigit c \<or> c = CHR ''_'')"

text \<open>White space of the host among the code units below 256 (\<open>\s\<close>, \<open>trim\<close>).\<close>

definition isWhiteSpace :: "char \<Rightarrow> bool" where
  "isWhiteSpace c = ((of_char c :: nat) \<in> {9, 10, 11, 12, 13, 32, 160})"

definition isLineTerminator :: "char \<Rightarrow> bool" where
  "isLineTerminator c = ((of_char c :: nat) \<in> {10, 13})"

definition isHexDigit :: "char \<Rightarrow> bool" where
  "isHexDigit c = (isDigit c \<or> (65 \<le> (of_char c :: nat) \<and> (of_char c :: nat) \<le> 70) \<or>
                   (97 \<le> (of_char c :: nat) \<and> (of_char c :: nat) \<le> 102))"

text \<open>
  Under the flag \<open>i\<close> two characters are compared after \<open>canonicalize\<close>.
  The patterns of this module contain ASCII characters only, for which the
  comparison identifies exactly the two cases of each ASCII letter.
\<close>

definition canonicalize :: "bool \<Rightarrow> char \<Rightarrow> char" where
  "canonicalize ignoreCase c =
     (if ignoreCase \<and> 97 \<le> (of_char c :: nat) \<and> (of_char c :: nat) \<le> 122
      then char_of ((of_char c :: nat) - 32) else c)"

subsection \<open>Regular expressions of the host\<close>

text \<open>
  The fragment that the three patterns of the module are written in: a
  character class (a literal character, \<open>\d\<close>, \<open>\w\<close>, \<open>\s\<close>, \<open>.\<close>, a
  bracketed set), a class repeated at least \<open>lo\<close> times greedily or lazily,
  sequence, alternation, a greedy optional group and a capturing group.
\<close>

datatype CharClass = Literal char | DigitClass | WordClass | SpaceClass | AnyChar | OneOf string

fun inClass :: "bool \<Rightarrow> CharClass \<Rightarrow> char \<Rightarrow> bool" where
  "inClass ic (Literal p) c = (canonicalize ic c = canonicalize ic p)"
| "inClass ic DigitClass c = isDigit c"
| "inClass ic WordClass c = isWordChar c"
| "inClass ic SpaceClass c = isWhiteSpace c"
| "inClass ic AnyChar c = (\<not> isLineTerminator c)"
| "inClass ic (OneOf cs) c = (canonicalize ic c \<in> set (map (canonicalize ic) cs))"

datatype RegExp =
    Empty
  | One CharClass
  | Many CharClass nat bool
  | Seq RegExp RegExp
  | Alt RegExp RegExp
  | Opt RegExp
  | Group nat RegExp

type_synonym captures = "(nat \<times> string) list"

text \<open>
  \<open>matches ic r s (i, caps)\<close> lists the ways in which \<open>r\<close> matches \<open>s\<close> from
  index \<open>i\<close>, as the end index and the captures of each, in the order in
  which the backtracking matcher of the host tries them: the host's match is
  the head of the list. \<open>ic\<close> is the flag \<open>i\<close>.
\<close>

fun matches :: "bool \<Rightarrow> RegExp \<Rightarrow> string \<Rightarrow> nat \<times> captures \<Rightarrow> (nat \<times> captures) list" where
  "matches ic Empty s (i, caps) = [(i, caps)]"
| "matches ic (One cls) s (i, caps) =
     (if i < length s \<and> inClass ic cls (s ! i) then [(i + 1, caps)] else [])"
| "matches ic (Many cls lo greedy) s (i, caps) =
     (let n = length (takeWhile (inClass ic cls) (drop i s));
          counts = (if greedy then rev [lo..<n + 1] else [lo..<n + 1])
      in map (\<lambda>k. (i + k, caps)) counts)"
| "matches ic (Seq r1 r2) s st = concat (map (matches ic r2 s) (matches ic r1 s st))"
| "matches ic (Alt r1 r2) s st = matches ic r1 s st @ matches ic r2 s st"
| "matches ic (Opt r) s st = matches ic r s st @ [st]"
| "matches ic (Group g r) s (i, caps) =
     map (\<lambda>(j, c). (j, (g, take (j - i) (drop i s)) # c)) (matches ic r s (i, caps))"

fun seqs :: "RegExp list \<Rightarrow> RegExp" where
  "seqs [] = Empty"
| "seqs [r] = r"
| "seqs (r # rs) = Seq r (seqs rs)"

definition lit :: "string \<Rightarrow> RegExp" where
  "lit cs = seqs (map (\<lambda>c. One (Literal c)) cs)"

fun alts :: "RegExp list \<Rightarrow> RegExp" where
  "alts [] = Empty"
| "alts [r] = r"
| "alts (r # rs) = Alt r (alts rs)"

text \<open>
  The search for a match that starts at the first possible index of the
  list \<open>starts\<close>: the result is the start index, the end index and the
  captures.
\<close>

fun execFrom ::
  "bool \<Rightarrow> RegExp \<Rightarrow> string \<Rightarrow> nat list \<Rightarrow> (nat \<times> nat \<times> captures) option" where
  "execFrom ic r s [] = None"
| "execFrom ic r s (i # starts) =
     (case matches ic r s (i, []) of
        [] \<Rightarrow> execFrom ic r s starts
      | (j, caps) # _ \<Rightarrow> Some (i, j, caps))"

definition regexExec ::
  "bool \<Rightarrow> RegExp \<Rightarrow> string \<Rightarrow> nat \<Rightarrow> (nat \<times> nat \<times> captures) option" where
  "regexExec ic r s lastIndex = execFrom ic r s [lastIndex..<length s + 1]"

text \<open>
  \<open>String.prototype.match\<close> with a pattern without the flag \<open>g\<close>: \<open>None\<close>
  is the host's \<open>null\<close>; the result maps 0 to the matched text and a group
  number to the text that the group captured, if it took part in the match.
\<close>

definition stringMatch :: "bool \<Rightarrow> RegExp \<Rightarrow> string \<Rightarrow> (nat \<rightharpoonup> string) option" where
  "stringMatch ic r s =
     (case regexExec ic r s 0 of
        None \<Rightarrow> None
      | Some (i, j, caps) \<Rightarrow> Some (map_of ((0, take (j - i) (drop i s)) # caps)))"

text \<open>
  \<open>String.prototype.match\<close> with the flag \<open>g\<close>: every match in turn, each
  search starting where the last match ended (one further after an empty
  match). Every round moves the start forward, so \<open>length s + 1\<close> rounds
  reach the end of the string.
\<close>

fun matchGlobalLoop :: "nat \<Rightarrow> bool \<Rightarrow> RegExp \<Rightarrow> string \<Rightarrow> nat \<Rightarrow> string list" where
  "matchGlobalLoop 0 ic r s lastIndex = []"
| "matchGlobalLoop (Suc rounds) ic r s lastIndex =
     (case regexExec ic r s lastIndex of
        None \<Rightarrow> []
      | Some (i, j, caps) \<Rightarrow>
          take (j - i) (drop i s) # matchGlobalLoop rounds ic r s (if j = i then j + 1 else j))"

definition stringMatchGlobal :: "bool \<Rightarrow> RegExp \<Rightarrow> string \<Rightarrow> string list option" where
  "stringMatchGlobal ic r s =
     (case matchGlobalLoop (length s + 1) ic r s 0 of [] \<Rightarrow> None | ms \<Rightarrow> Some ms)"

subsection \<open>Strings and numbers\<close>

definition startsWith :: "string \<Rightarrow> string \<Rightarrow> bool" where
  "startsWith s p = (take (length p) s = p)"

definition endsWith :: "string \<Rightarrow> string \<Rightarrow> bool" where
  "endsWith s p = (length p \<le> length s \<and> drop (length s - length p) s = p)"

fun stringIncludes :: "string \<Rightarrow> string \<Rightarrow> bool" where
  "stringIncludes [] t = (t = [])"
| "stringIncludes (c # s) t = (startsWith (c # s) t \<or> stringIncludes s t)"

definition trim :: "string \<Rightarrow> string" where
  "trim s = rev (dropWhile isWhiteSpace (rev (dropWhile isWhiteSpace s)))"

fun splitLoop :: "char \<Rightarrow> string \<Rightarrow> string \<Rightarrow> string list" where
  "splitLoop sep [] cur = [cur]"
| "splitLoop sep (c # s) cur =
     (if c = sep then cur # splitLoop sep s [] else splitLoop sep s (cur @ [c]))"

definition split :: "string \<Rightarrow> char \<Rightarrow> string list" where
  "split s sep = splitLoop sep s []"

definition digitValue :: "char \<Rightarrow> nat" where
  "digitValue c =
     (if isDigit c then (of_char c :: nat) - 48
      else if 97 \<le> (of_char c :: nat) then (of_char c :: nat) - 87
      else (of_char c :: nat) - 55)"

definition digitsValue :: "nat \<Rightarrow> string \<Rightarrow> nat" where
  "digitsValue base ds = foldl (\<lambda>acc c. base * acc + digitValue c) 0 ds"

text \<open>
  The longest prefix that is a decimal literal of the host (an optional
  sign, then \<open>Infinity\<close> or digits with an optional fraction and an optional
  exponent), with its value and the rest of the string.
\<close>

definition scanExponent :: "string \<Rightarrow> int \<times> string" where
  "scanExponent s =
     (case s of
        [] \<Rightarrow> (0, s)
      | e # t \<Rightarrow>
          if e = CHR ''e'' \<or> e = CHR ''E'' then
            (let neg = (t \<noteq> [] \<and> hd t = CHR ''-'');
                 t' = (if t \<noteq> [] \<and> (hd t = CHR ''+'' \<or> hd t = CHR ''-'') then tl t else t);
                 ds = takeWhile isDigit t'
             in if ds = [] then (0, s)
                else ((if neg then - int (digitsValue 10 ds) else int (digitsValue 10 ds)),
                      dropWhile isDigit t'))
          else (0, s))"

definition scanUnsigned :: "string \<Rightarrow> (number \<times> string) option" where
  "scanUnsigned s =
     (if startsWith s ''Infinity'' then Some (PosInfinity, drop 8 s)
      else
        let ip = takeWhile isDigit s;
            r1 = dropWhile isDigit s;
            hasDot = (r1 \<noteq> [] \<and> hd r1 = CHR ''.'');
            fp = (if hasDot then takeWhile isDigit (tl r1) else []);
            r2 = (if hasDot then dropWhile isDigit (tl r1) else r1)
        in if ip = [] \<and> fp = [] then None
           else
             let mant = real (digitsValue 10 ip) + real (digitsValue 10 fp) / 10 ^ length fp;
                 ex = scanExponent r2
             in Some (finiteResult (if fst ex \<ge> 0 then mant * 10 ^ nat (fst ex)
                                    else mant / 10 ^ nat (- fst ex)), snd ex))"

definition scanDecimal :: "string \<Rightarrow> (number \<times> string) option" where
  "scanDecimal s =
     (case s of
        [] \<Rightarrow> None
      | c # t \<Rightarrow>
          if c = CHR ''+'' then scanUnsigned t
          else if c = CHR ''-'' then
            (case scanUnsigned t of None \<Rightarrow> None | Some (v, r) \<Rightarrow> Some (numNeg v, r))
          else scanUnsigned s)"

definition parseFloat :: "string \<Rightarrow> number" where
  "parseFloat s =
     (case scanDecimal (dropWhile isWhiteSpace s) of None \<Rightarrow> NaN | Some (v, r) \<Rightarrow> v)"

definition scanNonDecimal :: "string \<Rightarrow> number option" where
  "scanNonDecimal s =
     (case s of
        z # x # ds \<Rightarrow>
          if z = CHR ''0'' \<and> ds \<noteq> [] then
            (if (x = CHR ''x'' \<or> x = CHR ''X'') \<and> list_all isHexDigit ds
               then Some (finiteResult (real (digitsValue 16 ds)))
             else if (x = CHR ''o'' \<or> x = CHR ''O'') \<and> list_all (\<lambda>c. c \<in> set ''01234567'') ds
               then Some (finiteResult (real (digitsValue 8 ds)))
             else if (x = CHR ''b'' \<or> x = CHR ''B'') \<and> list_all (\<lambda>c. c \<in> set ''01'') ds
               then Some (finiteResult (real (digitsValue 2 ds)))
             else None)
          else None
      | _ \<Rightarrow> None)"

text \<open>
  The conversion of a string to a number, which \<open>isNaN\<close> and the
  comparison operators apply to a string operand: the whole trimmed string
  must be a numeric literal; the empty string is 0.
\<close>

definition stringToNumber :: "string \<Rightarrow> number" where
  "stringToNumber s =
     (let t = trim s
      in if t = [] then Finite 0
         else case scanNonDecimal t of
           Some v \<Rightarrow> v
         | None \<Rightarrow> (case scanDecimal t of Some (v, []) \<Rightarrow> v | _ \<Rightarrow> NaN))"

definition isNaN :: "string \<Rightarrow> bool" where
  "isNaN s = (stringToNumber s = NaN)"

section \<open>The calculator\<close>

text \<open>
  The class \<open>Context\<close>: the variables, a map from names to numbers.
  \<open>getVariable\<close> returns \<open>get(name) || 0\<close>: 0 for a name that is absent and
  for a stored value that is falsy (0 or \<open>NaN\<close>).
\<close>

record Context =
  variables :: "string \<rightharpoonup> number"

definition newContext :: Context where
  "newContext = \<lparr>variables = Map.empty\<rparr>"

definition setVariable :: "Context \<Rightarrow> string \<Rightarrow> number \<Rightarrow> Context" where
  "setVariable ctx name v = ctx\<lparr>variables := (variables ctx)(name \<mapsto> v)\<rparr>"

definition getVariable :: "Context \<Rightarrow> string \<Rightarrow> number" where
  "getVariable ctx name =
     (case variables ctx name of
        None \<Rightarrow> Finite 0
      | Some v \<Rightarrow> if v = Finite 0 \<or> v = NaN then Finite 0 else v)"

definition hasVariable :: "Context \<Rightarrow> string \<Rightarrow> bool" where
  "hasVariable ctx name = (variables ctx name \<noteq> None)"

text \<open>
  The subclasses of \<open>AbstractExpression\<close>. The parser takes operands with
  \<open>stack.pop()!\<close>, which is \<open>undefined\<close> on an empty stack, so an operand of
  a node, and the tree itself, can be \<open>undefined\<close>: the last constructor.
\<close>

datatype AbstractExpression =
    NumberExpression number
  | VariableExpression string
  | AddExpression AbstractExpression AbstractExpression
  | SubtractExpression AbstractExpression AbstractExpression
  | MultiplyExpression AbstractExpression AbstractExpression
  | DivideExpression AbstractExpression AbstractExpression
  | UndefinedExpression

text \<open>
  The method \<open>interpret\<close> of the six classes; calling it on \<open>undefined\<close> is
  a \<open>TypeError\<close>. The first three binary nodes evaluate the left operand
  first; \<open>DivideExpression\<close> evaluates the right operand first, raises if it
  is 0, and only then evaluates the left operand.
\<close>

fun interpretExpression :: "AbstractExpression \<Rightarrow> Context \<Rightarrow> error + number" where
  "interpretExpression (NumberExpression v) ctx = Inr v"
| "interpretExpression (VariableExpression name) ctx = Inr (getVariable ctx name)"
| "interpretExpression (AddExpression left right) ctx =
     (case interpretExpression left ctx of
        Inl e \<Rightarrow> Inl e
      | Inr a \<Rightarrow>
          (case interpretExpression right ctx of
             Inl e \<Rightarrow> Inl e
           | Inr b \<Rightarrow> Inr (numAdd a b)))"
| "interpretExpression (SubtractExpression left right) ctx =
     (case interpretExpression left ctx of
        Inl e \<Rightarrow> Inl e
      | Inr a \<Rightarrow>
          (case interpretExpression right ctx of
             Inl e \<Rightarrow> Inl e
           | Inr b \<Rightarrow> Inr (numSub a b)))"
| "interpretExpression (MultiplyExpression left right) ctx =
     (case interpretExpression left ctx of
        Inl e \<Rightarrow> Inl e
      | Inr a \<Rightarrow>
          (case interpretExpression right ctx of
             Inl e \<Rightarrow> Inl e
           | Inr b \<Rightarrow> Inr (numMul a b)))"
| "interpretExpression (DivideExpression left right) ctx =
     (case interpretExpression right ctx of
        Inl e \<Rightarrow> Inl e
      | Inr rightValue \<Rightarrow>
          if rightValue = Finite 0 then Inl DivisionByZero
          else
            (case interpretExpression left ctx of
               Inl e \<Rightarrow> Inl e
             | Inr a \<Rightarrow> Inr (numDiv a rightValue)))"
| "interpretExpression UndefinedExpression ctx = Inl TypeError"

text \<open>The class \<open>Calculator\<close> and its private methods.\<close>

record Calculator =
  calcContext :: Context

definition newCalculator :: Calculator where
  "newCalculator = \<lparr>calcContext = newContext\<rparr>"

definition calcSetVariable :: "Calculator \<Rightarrow> string \<Rightarrow> number \<Rightarrow> Calculator" where
  "calcSetVariable calc name v = calc\<lparr>calcContext := setVariable (calcContext calc) name v\<rparr>"

text \<open>\<open>tokenize\<close>: every match of \<open>/\d+|\w+|[+\-*/()]/g\<close>, or the empty array.\<close>

definition tokenRegex :: RegExp where
  "tokenRegex = alts [Many DigitClass 1 True, Many WordClass 1 True, One (OneOf ''+-*/()'')]"

definition tokenize :: "string \<Rightarrow> string list" where
  "tokenize expression =
     (case stringMatchGlobal False tokenRegex expression of None \<Rightarrow> [] | Some ts \<Rightarrow> ts)"

text \<open>\<open>isNumber\<close> tests \<open>/^\d+$/\<close> and \<open>isVariable\<close> tests \<open>/^[a-zA-Z]\w*$/\<close>.\<close>

definition isNumber :: "string \<Rightarrow> bool" where
  "isNumber token = (token \<noteq> [] \<and> list_all isDigit token)"

definition isVariable :: "string \<Rightarrow> bool" where
  "isVariable token = (token \<noteq> [] \<and> isLetter (hd token) \<and> list_all isWordChar (tl token))"

definition isOperator :: "string \<Rightarrow> bool" where
  "isOperator token = (token \<in> set [''+'', ''-'', ''*'', ''/''])"

definition precedence :: "string \<Rightarrow> nat" where
  "precedence operator =
     (if operator = ''+'' \<or> operator = ''-'' then 1
      else if operator = ''*'' \<or> operator = ''/'' then 2
      else 0)"

definition createExpression ::
  "string \<Rightarrow> AbstractExpression \<Rightarrow> AbstractExpression \<Rightarrow> error + AbstractExpression" where
  "createExpression operator left right =
     (if operator = ''+'' then Inr (AddExpression left right)
      else if operator = ''-'' then Inr (SubtractExpression left right)
      else if operator = ''*'' then Inr (MultiplyExpression left right)
      else if operator = ''/'' then Inr (DivideExpression left right)
      else Inl (UnknownOperator operator))"

text \<open>
  The arrays \<open>stack\<close> and \<open>operators\<close> are lists with the top at the end,
  so that \<open>stack[0]\<close> is the head. \<open>popExpression\<close> is \<open>stack.pop()!\<close>.
\<close>

definition popExpression ::
  "AbstractExpression list \<Rightarrow> AbstractExpression \<times> AbstractExpression list" where
  "popExpression stack =
     (if stack = [] then (UndefinedExpression, []) else (last stack, butlast stack))"

text \<open>
  The three statements that follow \<open>operators.pop()\<close> in each of the three
  \<open>while\<close> loops of \<open>parse\<close>: pop the right operand, pop the left operand,
  push the node.
\<close>

definition reduce ::
  "string \<Rightarrow> AbstractExpression list \<Rightarrow> error + AbstractExpression list" where
  "reduce op stack =
     (let (right, stack1) = popExpression stack;
          (left, stack2) = popExpression stack1
      in case createExpression op left right of
           Inl e \<Rightarrow> Inl e
         | Inr expr \<Rightarrow> Inr (stack2 @ [expr]))"

text \<open>
  The \<open>while\<close> loops of \<open>parse\<close> differ in the condition on the top
  operator only: \<open>cond\<close>. Each round pops one operator.
\<close>

function reduceWhile ::
  "(string \<Rightarrow> bool) \<Rightarrow> AbstractExpression list \<Rightarrow> string list \<Rightarrow>
   error + (AbstractExpression list \<times> string list)" where
  "reduceWhile cond stack operators =
     (if length operators > 0 \<and> cond (last operators) then
        (case reduce (last operators) stack of
           Inl e \<Rightarrow> Inl e
         | Inr stack' \<Rightarrow> reduceWhile cond stack' (butlast operators))
      else Inr (stack, operators))"
  by pat_completeness auto
termination
  by (relation "measure (\<lambda>(cond, stack, operators). length operators)") auto

declare reduceWhile.simps [simp del]

text \<open>The \<open>for\<close> loop of \<open>parse\<close> over the tokens.\<close>

fun parseTokens ::
  "string list \<Rightarrow> AbstractExpression list \<Rightarrow> string list \<Rightarrow>
   error + (AbstractExpression list \<times> string list)" where
  "parseTokens [] stack operators = Inr (stack, operators)"
| "parseTokens (token # rest) stack operators =
     (if isNumber token then
        parseTokens rest (stack @ [NumberExpression (parseFloat token)]) operators
      else if isVariable token then
        parseTokens rest (stack @ [VariableExpression token]) operators
      else if isOperator token then
        (case reduceWhile (\<lambda>top. precedence top \<ge> precedence token) stack operators of
           Inl e \<Rightarrow> Inl e
         | Inr (stack', operators') \<Rightarrow> parseTokens rest stack' (operators' @ [token]))
      else if token = ''('' then
        parseTokens rest stack (operators @ [token])
      else if token = '')'' then
        (case reduceWhile (\<lambda>top. top \<noteq> ''('') stack operators of
           Inl e \<Rightarrow> Inl e
         | Inr (stack', operators') \<Rightarrow> parseTokens rest stack' (butlast operators'))
      else parseTokens rest stack operators)"

text \<open>
  \<open>parse\<close>: the loop over the tokens, the loop that empties \<open>operators\<close>,
  and \<open>stack[0]\<close>, which is \<open>undefined\<close> when the stack is empty.
\<close>

definition parse :: "string list \<Rightarrow> error + AbstractExpression" where
  "parse tokens =
     (case parseTokens tokens [] [] of
        Inl e \<Rightarrow> Inl e
      | Inr (stack, operators) \<Rightarrow>
          (case reduceWhile (\<lambda>top. True) stack operators of
             Inl e \<Rightarrow> Inl e
           | Inr (stack', operators') \<Rightarrow>
               Inr (if stack' = [] then UndefinedExpression else stack' ! 0)))"

definition evaluate :: "Calculator \<Rightarrow> string \<Rightarrow> error + number" where
  "evaluate calc expression =
     (case parse (tokenize expression) of
        Inl e \<Rightarrow> Inl e
      | Inr ast \<Rightarrow> interpretExpression ast (calcContext calc))"

text \<open>
  The grammar of infix expressions that the precedences stand for, as a
  reference for the parser: \<open>derives level tokens e\<close> says that \<open>tokens\<close> is
  an expression of the given level and that \<open>e\<close> is its tree. Level 3 is a
  factor (a number, a variable or an expression in parentheses), level 2 a
  term (factors joined by \<open>*\<close> and \<open>/\<close>, which have precedence 2), level 1
  an expression (terms joined by \<open>+\<close> and \<open>-\<close>, which have precedence 1).
  Operators of one level group from left to right.
\<close>

inductive derives :: "nat \<Rightarrow> string list \<Rightarrow> AbstractExpression \<Rightarrow> bool" where
  number: "isNumber token \<Longrightarrow> derives 3 [token] (NumberExpression (parseFloat token))"
| variable: "isVariable token \<Longrightarrow> derives 3 [token] (VariableExpression token)"
| parentheses: "derives 1 tokens e \<Longrightarrow> derives 3 (''('' # tokens @ ['')'']) e"
| fromFactor: "derives 3 tokens e \<Longrightarrow> derives 2 tokens e"
| multiply:
    "derives 2 tokens1 left \<Longrightarrow> derives 3 tokens2 right \<Longrightarrow>
     derives 2 (tokens1 @ ''*'' # tokens2) (MultiplyExpression left right)"
| divide:
    "derives 2 tokens1 left \<Longrightarrow> derives 3 tokens2 right \<Longrightarrow>
     derives 2 (tokens1 @ ''/'' # tokens2) (DivideExpression left right)"
| fromTerm: "derives 2 tokens e \<Longrightarrow> derives 1 tokens e"
| add:
    "derives 1 tokens1 left \<Longrightarrow> derives 2 tokens2 right \<Longrightarrow>
     derives 1 (tokens1 @ ''+'' # tokens2) (AddExpression left right)"
| subtract:
    "derives 1 tokens1 left \<Longrightarrow> derives 2 tokens2 right \<Longrightarrow>
     derives 1 (tokens1 @ ''-'' # tokens2) (SubtractExpression left right)"

text \<open>
  What the loop of \<open>parse\<close> over the tokens does on an expression of the
  grammar, for the proofs: from any stack and any operators whose last one
  binds less than the level of the expression, the loop leaves these
  operators in place, followed by operators of the expression that are still
  pending, and reducing the pending operators gives the stack with the tree
  of the expression on top.
\<close>

definition consumes ::
  "nat \<Rightarrow> string list \<Rightarrow> AbstractExpression \<Rightarrow> bool" where
  "consumes level tokens e =
     (\<forall>stack operators rest.
        operators = [] \<or> precedence (last operators) < level \<longrightarrow>
        (\<exists>stack' pending.
           parseTokens (tokens @ rest) stack operators =
             parseTokens rest stack' (operators @ pending) \<and>
           list_all (\<lambda>op. isOperator op \<and> level \<le> precedence op) pending \<and>
           reduceWhile (\<lambda>top. True) stack' pending = Inr (stack @ [e], [])))"

section \<open>The SQL interpreter\<close>

text \<open>
  A row is a plain object: a map from the names of its own properties to
  their values, where a value is \<open>undefined\<close>, \<open>null\<close>, a number or a string.
  Besides its own properties a plain object has the members that it inherits
  from the host's \<open>Object.prototype\<close>, listed in \<open>objectPrototypeNames\<close>:
  they are functions, and \<open>__proto__\<close> reads as the prototype object itself.
  Reading \<open>row[name]\<close> gives the own property if the row has one, else the
  inherited member of that name, else \<open>undefined\<close>.
\<close>

datatype JSValue = JSUndefined | JSNull | JSNumber number | JSString string

type_synonym row = "string \<rightharpoonup> JSValue"

definition objectPrototypeNames :: "string list" where
  "objectPrototypeNames =
     [''constructor'', ''hasOwnProperty'', ''isPrototypeOf'', ''propertyIsEnumerable'',
      ''toLocaleString'', ''toString'', ''valueOf'', ''__proto__'',
      ''__defineGetter__'', ''__defineSetter__'', ''__lookupGetter__'', ''__lookupSetter__'']"

datatype PropertyValue = Primitive JSValue | Builtin string

definition getProperty :: "row \<Rightarrow> string \<Rightarrow> PropertyValue" where
  "getProperty r name =
     (case r name of
        Some v \<Rightarrow> Primitive v
      | None \<Rightarrow> if name \<in> set objectPrototypeNames then Builtin name else Primitive JSUndefined)"

text \<open>
  Two texts are chosen by the host and are parameters of the model: the
  digits that it prints for a finite number, which depend on the
  floating-point representation, and the text that it prints for an
  inherited member (the source text of a built-in function).
\<close>

record Host =
  numberText :: "real \<Rightarrow> string"
  builtinText :: "string \<Rightarrow> string"

record SQLContext =
  tables :: "string \<rightharpoonup> row list"

definition newSQLContext :: SQLContext where
  "newSQLContext = \<lparr>tables = Map.empty\<rparr>"

definition addTable :: "SQLContext \<Rightarrow> string \<Rightarrow> row list \<Rightarrow> SQLContext" where
  "addTable ctx name data = ctx\<lparr>tables := (tables ctx)(name \<mapsto> data)\<rparr>"

definition getTable :: "SQLContext \<Rightarrow> string \<Rightarrow> row list" where
  "getTable ctx name = (case tables ctx name of None \<Rightarrow> [] | Some data \<Rightarrow> data)"

definition hasTable :: "SQLContext \<Rightarrow> string \<Rightarrow> bool" where
  "hasTable ctx name = (tables ctx name \<noteq> None)"

subsection \<open>The operators of the host that \<open>WhereExpression.evaluate\<close> applies\<close>

text \<open>\<open>===\<close>: the same value; \<open>NaN\<close> equals nothing.\<close>

definition strictEquals :: "JSValue \<Rightarrow> JSValue \<Rightarrow> bool" where
  "strictEquals a b = (a = b \<and> a \<noteq> JSNumber NaN)"

definition toNumber :: "JSValue \<Rightarrow> number" where
  "toNumber v =
     (case v of
        JSUndefined \<Rightarrow> NaN
      | JSNull \<Rightarrow> Finite 0
      | JSNumber n \<Rightarrow> n
      | JSString s \<Rightarrow> stringToNumber s)"

fun stringLess :: "string \<Rightarrow> string \<Rightarrow> bool" where
  "stringLess a [] = False"
| "stringLess [] (y # ys) = True"
| "stringLess (x # xs) (y # ys) =
     (if x = y then stringLess xs ys else (of_char x :: nat) < of_char y)"

fun numberLess :: "number \<Rightarrow> number \<Rightarrow> bool option" where
  "numberLess NaN b = None"
| "numberLess a NaN = None"
| "numberLess (Finite x) (Finite y) = Some (x < y)"
| "numberLess a PosInfinity = Some (a \<noteq> PosInfinity)"
| "numberLess NegInfinity b = Some (b \<noteq> NegInfinity)"
| "numberLess a b = Some False"

text \<open>
  The comparison that the four relational operators are defined by: two
  strings are compared by code units, any other pair as numbers, and the
  result is undefined (\<open>None\<close>) if one of the numbers is \<open>NaN\<close>. A
  relational operator is false whenever the comparison is undefined.
\<close>

definition isLessThan :: "JSValue \<Rightarrow> JSValue \<Rightarrow> bool option" where
  "isLessThan a b =
     (case (a, b) of
        (JSString x, JSString y) \<Rightarrow> Some (stringLess x y)
      | _ \<Rightarrow> numberLess (toNumber a) (toNumber b))"

definition greaterThan :: "JSValue \<Rightarrow> JSValue \<Rightarrow> bool" where
  "greaterThan a b = (isLessThan b a = Some True)"

definition lessThan :: "JSValue \<Rightarrow> JSValue \<Rightarrow> bool" where
  "lessThan a b = (isLessThan a b = Some True)"

definition greaterOrEqual :: "JSValue \<Rightarrow> JSValue \<Rightarrow> bool" where
  "greaterOrEqual a b = (isLessThan a b = Some False)"

definition lessOrEqual :: "JSValue \<Rightarrow> JSValue \<Rightarrow> bool" where
  "lessOrEqual a b = (isLessThan b a = Some False)"

text \<open>
  An inherited member is an object. It is strictly equal to no primitive
  value, and a relational operator converts it to a primitive first, which
  is its text.
\<close>

definition strictEqualsProperty :: "PropertyValue \<Rightarrow> JSValue \<Rightarrow> bool" where
  "strictEqualsProperty columnValue v =
     (case columnValue of Primitive a \<Rightarrow> strictEquals a v | Builtin name \<Rightarrow> False)"

definition toPrimitive :: "Host \<Rightarrow> PropertyValue \<Rightarrow> JSValue" where
  "toPrimitive host columnValue =
     (case columnValue of Primitive a \<Rightarrow> a | Builtin name \<Rightarrow> JSString (builtinText host name))"

text \<open>
  The method \<open>toString\<close>: a \<open>TypeError\<close> on \<open>undefined\<close> and \<open>null\<close>, the
  text of the host for a finite number and for an inherited member.
\<close>

definition numberToString :: "Host \<Rightarrow> number \<Rightarrow> string" where
  "numberToString host n =
     (case n of
        Finite x \<Rightarrow> numberText host x
      | NaN \<Rightarrow> ''NaN''
      | PosInfinity \<Rightarrow> ''Infinity''
      | NegInfinity \<Rightarrow> ''-Infinity'')"

definition toStringMethod :: "Host \<Rightarrow> JSValue \<Rightarrow> error + string" where
  "toStringMethod host v =
     (case v of
        JSUndefined \<Rightarrow> Inl TypeError
      | JSNull \<Rightarrow> Inl TypeError
      | JSNumber n \<Rightarrow> Inr (numberToString host n)
      | JSString s \<Rightarrow> Inr s)"

definition propertyToString :: "Host \<Rightarrow> PropertyValue \<Rightarrow> error + string" where
  "propertyToString host columnValue =
     (case columnValue of
        Primitive a \<Rightarrow> toStringMethod host a
      | Builtin name \<Rightarrow> Inr (builtinText host name))"

subsection \<open>The classes\<close>

datatype WhereExpression = WhereExpression string string JSValue

text \<open>\<open>WhereExpression.evaluate\<close>: the \<open>switch\<close> on the operator.\<close>

fun evaluateWhere :: "Host \<Rightarrow> WhereExpression \<Rightarrow> row \<Rightarrow> error + bool" where
  "evaluateWhere host (WhereExpression column operator v) r =
     (let columnValue = getProperty r column
      in if operator = ''='' then Inr (strictEqualsProperty columnValue v)
         else if operator = ''!='' then Inr (\<not> strictEqualsProperty columnValue v)
         else if operator = ''>'' then Inr (greaterThan (toPrimitive host columnValue) v)
         else if operator = ''<'' then Inr (lessThan (toPrimitive host columnValue) v)
         else if operator = ''>='' then Inr (greaterOrEqual (toPrimitive host columnValue) v)
         else if operator = ''<='' then Inr (lessOrEqual (toPrimitive host columnValue) v)
         else if operator = ''LIKE'' then
           (case propertyToString host columnValue of
              Inl e \<Rightarrow> Inl e
            | Inr cs \<Rightarrow>
                (case toStringMethod host v of
                   Inl e \<Rightarrow> Inl e
                 | Inr vs \<Rightarrow> Inr (stringIncludes cs vs)))
         else Inr False)"

text \<open>
  \<open>data.filter\<close> with a predicate that can raise: the rows are tested in
  order and the first error ends the call.
\<close>

fun filterRows :: "(row \<Rightarrow> error + bool) \<Rightarrow> row list \<Rightarrow> error + row list" where
  "filterRows p [] = Inr []"
| "filterRows p (r # rs) =
     (case p r of
        Inl e \<Rightarrow> Inl e
      | Inr keep \<Rightarrow>
          (case filterRows p rs of
             Inl e \<Rightarrow> Inl e
           | Inr rs' \<Rightarrow> Inr (if keep then r # rs' else rs')))"

datatype SQLExpression = SelectExpression "string list" string "WhereExpression option"

text \<open>
  The projection of one row: the \<open>forEach\<close> over the columns. The call
  \<open>row.hasOwnProperty(col)\<close> reads the member \<open>hasOwnProperty\<close> of the row:
  the inherited function, or an own property of that name, which is a
  primitive value and cannot be called. The assignment \<open>result[col] = row[col]\<close>
  adds an own property to the result, except for the name \<open>__proto__\<close>,
  whose inherited setter adds no own property.
\<close>

fun projectLoop :: "row \<Rightarrow> string list \<Rightarrow> row \<Rightarrow> error + row" where
  "projectLoop r [] result = Inr result"
| "projectLoop r (col # cols) result =
     (case getProperty r ''hasOwnProperty'' of
        Primitive a \<Rightarrow> Inl TypeError
      | Builtin name \<Rightarrow>
          (case r col of
             None \<Rightarrow> projectLoop r cols result
           | Some v \<Rightarrow>
               projectLoop r cols (if col = ''__proto__'' then result else result(col \<mapsto> v))))"

definition project :: "string list \<Rightarrow> row \<Rightarrow> error + row" where
  "project columns r = projectLoop r columns Map.empty"

text \<open>\<open>data.map\<close> with a function that can raise.\<close>

fun mapRows :: "(row \<Rightarrow> error + row) \<Rightarrow> row list \<Rightarrow> error + row list" where
  "mapRows f [] = Inr []"
| "mapRows f (r # rs) =
     (case f r of
        Inl e \<Rightarrow> Inl e
      | Inr r' \<Rightarrow> (case mapRows f rs of Inl e \<Rightarrow> Inl e | Inr rs' \<Rightarrow> Inr (r' # rs')))"

fun interpretSQL :: "Host \<Rightarrow> SQLExpression \<Rightarrow> SQLContext \<Rightarrow> error + row list" where
  "interpretSQL host (SelectExpression columns table whereClause) ctx =
     (case (case whereClause of
              None \<Rightarrow> Inr (getTable ctx table)
            | Some w \<Rightarrow> filterRows (evaluateWhere host w) (getTable ctx table)) of
        Inl e \<Rightarrow> Inl e
      | Inr data \<Rightarrow>
          if ''*'' \<in> set columns then Inr data
          else mapRows (project columns) data)"

text \<open>
  The two patterns of \<open>parseSQL\<close>, both with the flag \<open>i\<close>:
  \<open>/SELECT\s+(.+?)\s+FROM\s+(\w+)(?:\s+WHERE\s+(.+))?/i\<close> and
  \<open>/(\w+)\s*(=|!=|>|<|>=|<=|LIKE)\s*(.+)/i\<close>.
\<close>

definition selectRegex :: RegExp where
  "selectRegex =
     seqs [lit ''SELECT'', Many SpaceClass 1 True, Group 1 (Many AnyChar 1 False),
           Many SpaceClass 1 True, lit ''FROM'', Many SpaceClass 1 True,
           Group 2 (Many WordClass 1 True),
           Opt (seqs [Many SpaceClass 1 True, lit ''WHERE'', Many SpaceClass 1 True,
                      Group 3 (Many AnyChar 1 True)])]"

definition whereRegex :: RegExp where
  "whereRegex =
     seqs [Group 1 (Many WordClass 1 True), Many SpaceClass 0 True,
           Group 2 (alts [lit ''='', lit ''!='', lit ''>'', lit ''<'', lit ''>='', lit ''<='',
                          lit ''LIKE'']),
           Many SpaceClass 0 True, Group 3 (Many AnyChar 1 True)]"

text \<open>
  The body of \<open>if (whereClause)\<close> in \<open>parseSQL\<close>. The three groups of the
  pattern take part in each of its matches; the last case is for a match
  without one of them, where the host would call a method on \<open>undefined\<close>.
  A quoted value loses its quotes (\<open>slice(1, -1)\<close>), a value that converts to
  a number becomes \<open>parseFloat\<close> of it, any other value stays a string.
\<close>

definition parseWhere :: "string \<Rightarrow> error + WhereExpression option" where
  "parseWhere whereClause =
     (case stringMatch True whereRegex whereClause of
        None \<Rightarrow> Inr None
      | Some whereMatch \<Rightarrow>
          (case (whereMatch 1, whereMatch 2, whereMatch 3) of
             (Some column, Some operator, Some v) \<Rightarrow>
               if startsWith v [CHR 0x27] \<and> endsWith v [CHR 0x27] then
                 Inr (Some (WhereExpression column operator (JSString (butlast (tl v)))))
               else if \<not> isNaN v then
                 Inr (Some (WhereExpression column operator (JSNumber (parseFloat v))))
               else Inr (Some (WhereExpression column operator (JSString v)))
           | _ \<Rightarrow> Inl TypeError))"

definition parseSQL :: "string \<Rightarrow> error + SQLExpression" where
  "parseSQL sql =
     (case stringMatch True selectRegex sql of
        None \<Rightarrow> Inl UnsupportedSQL
      | Some selectMatch \<Rightarrow>
          (case (selectMatch 1, selectMatch 2) of
             (Some cols, Some table) \<Rightarrow>
               (let columns = map trim (split cols (CHR '',''))
                in case selectMatch 3 of
                     None \<Rightarrow> Inr (SelectExpression columns table None)
                   | Some whereClause \<Rightarrow>
                       (case parseWhere whereClause of
                          Inl e \<Rightarrow> Inl e
                        | Inr whereExpression \<Rightarrow>
                            Inr (SelectExpression columns table whereExpression)))
           | _ \<Rightarrow> Inl TypeError))"

record SQLInterpreter =
  sqlContext :: SQLContext

definition newSQLInterpreter :: SQLInterpreter where
  "newSQLInterpreter = \<lparr>sqlContext = newSQLContext\<rparr>"

definition sqlAddTable :: "SQLInterpreter \<Rightarrow> string \<Rightarrow> row list \<Rightarrow> SQLInterpreter" where
  "sqlAddTable interp name data = interp\<lparr>sqlContext := addTable (sqlContext interp) name data\<rparr>"

definition execute :: "Host \<Rightarrow> SQLInterpreter \<Rightarrow> string \<Rightarrow> error + row list" where
  "execute host interp sql =
     (case parseSQL sql of
        Inl e \<Rightarrow> Inl e
      | Inr expression \<Rightarrow> interpretSQL host expression (sqlContext interp))"

text \<open>
  A host for the examples: it prints an integer in decimal digits and a
  built-in function as \<open>function name() { [native code] }\<close>, where the member
  \<open>constructor\<close> is the function \<open>Object\<close> and the member \<open>__proto__\<close> is an
  object that prints as \<open>[object Object]\<close>.
\<close>

fun natText :: "nat \<Rightarrow> string" where
  "natText n =
     (if n < 10 then [char_of (48 + n)] else natText (n div 10) @ [char_of (48 + n mod 10)])"

definition integerText :: "real \<Rightarrow> string" where
  "integerText x = (if x < 0 then ''-'' else []) @ natText (nat \<lfloor>\<bar>x\<bar>\<rfloor>)"

definition nativeText :: "string \<Rightarrow> string" where
  "nativeText name =
     (if name = ''__proto__'' then ''[object Object]''
      else ''function '' @ (if name = ''constructor'' then ''Object'' else name) @
           ''() { [native code] }'')"

definition sampleHost :: Host where
  "sampleHost = \<lparr>numberText = integerText, builtinText = nativeText\<rparr>"

section \<open>The regular-expression interpreter\<close>

text \<open>
  The class \<open>RegexContext\<close>: the input string and the cursor. Strings are
  lists of characters; the cursor is a natural number that \<open>advance\<close>
  increments without any bound check, as the source does.
\<close>

record RegexContext =
  input :: string
  position :: nat

definition newRegexContext :: "string \<Rightarrow> RegexContext" where
  "newRegexContext s = \<lparr>input = s, position = 0\<rparr>"

definition getCurrentChar :: "RegexContext \<Rightarrow> string" where
  "getCurrentChar ctx =
     (if position ctx < length (input ctx) then [input ctx ! position ctx] else [])"

definition advance :: "RegexContext \<Rightarrow> RegexContext" where
  "advance ctx = ctx\<lparr>position := position ctx + 1\<rparr>"

definition getPosition :: "RegexContext \<Rightarrow> nat" where
  "getPosition ctx = position ctx"

definition setPosition :: "RegexContext \<Rightarrow> nat \<Rightarrow> RegexContext" where
  "setPosition ctx p = ctx\<lparr>position := p\<rparr>"

definition isAtEnd :: "RegexContext \<Rightarrow> bool" where
  "isAtEnd ctx = (position ctx \<ge> length (input ctx))"

text \<open>
  The subclasses of \<open>RegexExpression\<close>. The field of
  \<open>CharacterExpression\<close> is a string in the source (the pattern compiler
  always stores a string of length one).
\<close>

datatype RegexExpression =
    CharacterExpression string
  | DotExpression
  | SequenceExpression "RegexExpression list"
  | AlternationExpression RegexExpression RegexExpression
  | ZeroOrMoreExpression RegexExpression

text \<open>
  The \<open>for\<close> loop of \<open>SequenceExpression.match\<close>, over the matcher \<open>m\<close> of
  the elements: the first element that fails resets the cursor to
  \<open>startPosition\<close> and the loop returns false.
\<close>

fun sequenceLoop ::
  "(RegexExpression \<Rightarrow> RegexContext \<Rightarrow> (bool \<times> RegexContext) option) \<Rightarrow>
   RegexExpression list \<Rightarrow> nat \<Rightarrow> RegexContext \<Rightarrow> (bool \<times> RegexContext) option" where
  "sequenceLoop m [] startPosition ctx = Some (True, ctx)"
| "sequenceLoop m (expr # rest) startPosition ctx =
     (case m expr ctx of
        None \<Rightarrow> None
      | Some (ok, ctx') \<Rightarrow>
          if \<not> ok then Some (False, setPosition ctx' startPosition)
          else sequenceLoop m rest startPosition ctx')"

text \<open>
  The method \<open>match\<close> of the five classes. The \<open>while\<close> loop of
  \<open>ZeroOrMoreExpression.match\<close> has no bound, so the function takes fuel:
  every call of \<open>match\<close> and every iteration of the loop spends one unit, and
  \<open>None\<close> means that the fuel did not suffice. A result is the returned
  boolean and the context after the call.
\<close>

primrec match :: "nat \<Rightarrow> RegexExpression \<Rightarrow> RegexContext \<Rightarrow> (bool \<times> RegexContext) option" where
  "match 0 = (\<lambda>e ctx. None)"
| "match (Suc n) = (\<lambda>e ctx.
     case e of
       CharacterExpression c \<Rightarrow>
         if getCurrentChar ctx = c then Some (True, advance ctx) else Some (False, ctx)
     | DotExpression \<Rightarrow>
         if \<not> isAtEnd ctx then Some (True, advance ctx) else Some (False, ctx)
     | SequenceExpression expressions \<Rightarrow>
         sequenceLoop (match n) expressions (getPosition ctx) ctx
     | AlternationExpression left right \<Rightarrow>
         (case match n left ctx of
            None \<Rightarrow> None
          | Some (ok, ctx') \<Rightarrow>
              if ok then Some (True, ctx')
              else match n right (setPosition ctx' (getPosition ctx)))
     | ZeroOrMoreExpression expression \<Rightarrow>
         (case match n expression ctx of
            None \<Rightarrow> None
          | Some (ok, ctx') \<Rightarrow>
              if ok then match n (ZeroOrMoreExpression expression) ctx'
              else Some (True, ctx')))"

text \<open>
  \<open>SimpleRegexInterpreter.parsePattern\<close>: \<open>parseLoop\<close> is the \<open>for\<close> loop
  over the rest of the pattern with the array \<open>expressions\<close> built so far;
  at \<open>|\<close> the source returns the alternation of the sequence so far and of the
  compiled rest of the pattern.
\<close>

fun parseLoop :: "string \<Rightarrow> RegexExpression list \<Rightarrow> RegexExpression" where
  "parseLoop [] expressions = SequenceExpression expressions"
| "parseLoop (char # rest) expressions =
     (if char = CHR ''.'' then parseLoop rest (expressions @ [DotExpression])
      else if char = CHR ''*'' \<and> length expressions > 0 then
        parseLoop rest (butlast expressions @ [ZeroOrMoreExpression (last expressions)])
      else if char = CHR ''|'' then
        AlternationExpression (SequenceExpression expressions) (parseLoop rest [])
      else parseLoop rest (expressions @ [CharacterExpression [char]]))"

definition parsePattern :: "string \<Rightarrow> RegexExpression" where
  "parsePattern pattern = parseLoop pattern []"

text \<open>
  \<open>SimpleRegexInterpreter.test\<close>, with the fuel of \<open>match\<close>; \<open>test_returns\<close>
  says that the call returns the given boolean, that is, that some amount of
  fuel suffices.
\<close>

definition test :: "nat \<Rightarrow> string \<Rightarrow> string \<Rightarrow> bool option" where
  "test fuel pattern inp =
     (case match fuel (parsePattern pattern) (newRegexContext inp) of
        None \<Rightarrow> None
      | Some (ok, ctx) \<Rightarrow> Some (ok \<and> isAtEnd ctx))"

definition test_returns :: "string \<Rightarrow> string \<Rightarrow> bool \<Rightarrow> bool" where
  "test_returns pattern inp b = (\<exists>fuel. test fuel pattern inp = Some b)"

text \<open>
  Three predicates for the proofs. The first: every \<open>CharacterExpression\<close>
  of the tree holds a string of length one (as every tree that
  \<open>parsePattern\<close> builds does).
\<close>

fun singleChars :: "RegexExpression \<Rightarrow> bool" where
  "singleChars (CharacterExpression c) = (length c = 1)"
| "singleChars DotExpression = True"
| "singleChars (SequenceExpression es) = list_all singleChars es"
| "singleChars (AlternationExpression l r) = (singleChars l \<and> singleChars r)"
| "singleChars (ZeroOrMoreExpression e) = singleChars e"

text \<open>
  A tree in which every starred element is a single character or a dot:
  the trees on which every loop of \<open>ZeroOrMoreExpression.match\<close> consumes
  input in each round.
\<close>

fun productive :: "RegexExpression \<Rightarrow> bool" where
  "productive (CharacterExpression c) = True"
| "productive DotExpression = True"
| "productive (SequenceExpression es) = list_all productive es"
| "productive (AlternationExpression l r) = (productive l \<and> productive r)"
| "productive (ZeroOrMoreExpression e) =
     (case e of CharacterExpression c \<Rightarrow> True | DotExpression \<Rightarrow> True | _ \<Rightarrow> False)"

text \<open>The cursor is inside the input or just behind it.\<close>

definition inRange :: "RegexContext \<Rightarrow> bool" where
  "inRange ctx = (position ctx \<le> length (input ctx))"

section \<open>Properties of the host model\<close>

text \<open>
  The two bounds of \<open>finiteResult\<close> as numerals, for evaluation.
\<close>

lemma finiteResult_code [code]:
  "finiteResult x =
     (if \<bar>x\<bar> \<ge> 179769313486231580793728971405303415079934132710037826936173778980444968292764750946649017977587207096330286416692887910946555547851940402630657488671505820681908902000708383676273854845817711531764475730270069855571366959622842914819860834936475292719074168444365510704342711559699508093042880177904174497792
      then (if x < 0 then NegInfinity else PosInfinity)
      else if \<bar>x\<bar> * 404804506614621236704990693437834614099113299528284236713802716054860679135990693783920767402874248990374155728633623822779617474771586953734026799881477019843034848553132722728933815484186432682479535356945490137124014966849385397236206711298319112681620113024717539104666829230461005064372655017292012526615415482186989568 \<le> 1
      then Finite 0
      else Finite x)"
  by (simp add: finiteResult_def)

text \<open>
  A match ends at or after the index where it starts, so every round of
  the global matching loop moves on and further rounds beyond
  \<open>length s + 1\<close> add nothing.
\<close>

lemma matches_forward:
  "(j, c) \<in> set (matches ic r s (i, caps)) \<Longrightarrow> i \<le> j"
proof (induction r arbitrary: i caps j c)
  case Empty
  then show ?case by simp
next
  case (One cls)
  then show ?case by (auto split: if_splits)
next
  case (Many cls lo greedy)
  then show ?case by (auto simp: Let_def split: if_splits)
next
  case (Seq r1 r2)
  from Seq.prems obtain k c1 where
    k: "(k, c1) \<in> set (matches ic r1 s (i, caps))" and
    j: "(j, c) \<in> set (matches ic r2 s (k, c1))"
    by auto
  from Seq.IH(1) [OF k] Seq.IH(2) [OF j] show ?case by simp
next
  case (Alt r1 r2)
  then show ?case by auto
next
  case (Opt r)
  then show ?case by auto
next
  case (Group g r)
  then show ?case by auto
qed

lemma execFrom_result:
  "execFrom ic r s starts = Some (i, j, caps) \<Longrightarrow> i \<in> set starts \<and> i \<le> j"
proof (induction starts)
  case Nil
  then show ?case by simp
next
  case (Cons a starts)
  show ?case
  proof (cases "matches ic r s (a, [])")
    case Nil
    with Cons show ?thesis by simp
  next
    case (Cons m ms)
    obtain j' c' where m: "m = (j', c')" by (cases m)
    with Cons Cons.prems have eq: "i = a" "j = j'" by auto
    from Cons m have "(j', c') \<in> set (matches ic r s (a, []))" by simp
    from matches_forward [OF this] eq show ?thesis by simp
  qed
qed

lemma regexExec_result:
  "regexExec ic r s lastIndex = Some (i, j, caps) \<Longrightarrow>
   lastIndex \<le> i \<and> i \<le> j \<and> i \<le> length s"
  unfolding regexExec_def by (drule execFrom_result) auto

lemma regexExec_past_end: "length s < lastIndex \<Longrightarrow> regexExec ic r s lastIndex = None"
  by (simp add: regexExec_def)

lemma matchGlobalLoop_enough:
  "length s < lastIndex + rounds \<Longrightarrow>
   matchGlobalLoop (rounds + k) ic r s lastIndex = matchGlobalLoop rounds ic r s lastIndex"
proof (induction rounds arbitrary: lastIndex)
  case 0
  then show ?case by (cases k) (simp_all add: regexExec_past_end)
next
  case (Suc rounds)
  show ?case
  proof (cases "regexExec ic r s lastIndex")
    case None
    then show ?thesis by simp
  next
    case (Some a)
    obtain i j caps where a: "a = (i, j, caps)" by (cases a)
    from regexExec_result [OF Some [unfolded a]] Suc.prems
    have "length s < (if j = i then j + 1 else j) + rounds" by auto
    from Suc.IH [OF this] Some a show ?thesis by simp
  qed
qed

section \<open>Properties of the calculator\<close>

text \<open>
  The three loops of \<open>parse\<close> reduce the operators at the end of
  \<open>operators\<close> for as long as the condition holds. If the last operators
  \<open>pending\<close> all satisfy the condition and reduce the stack to \<open>stack'\<close>,
  the loop goes on from \<open>stack'\<close> and the operators below them.
\<close>

lemma reduceWhile_stop:
  "operators = [] \<or> \<not> cond (last operators) \<Longrightarrow>
   reduceWhile cond stack operators = Inr (stack, operators)"
  by (subst reduceWhile.simps) auto

lemma reduceWhile_pending:
  assumes "list_all cond pending"
    and "reduceWhile (\<lambda>top. True) stack pending = Inr (stack', [])"
  shows "reduceWhile cond stack (operators @ pending) = reduceWhile cond stack' operators"
  using assms
proof (induction pending arbitrary: stack rule: rev_induct)
  case Nil
  then show ?case by (simp add: reduceWhile_stop)
next
  case (snoc op pending)
  from snoc.prems(2) obtain stack1 where
    r: "reduce op stack = Inr stack1" and
    rest: "reduceWhile (\<lambda>top. True) stack1 pending = Inr (stack', [])"
    by (subst (asm) reduceWhile.simps) (auto split: sum.splits)
  from snoc.prems(1) have c: "cond op" and cs: "list_all cond pending" by simp_all
  have "reduceWhile cond stack (operators @ pending @ [op]) =
        reduceWhile cond stack1 (operators @ pending)"
    using r c by (subst reduceWhile.simps) (simp add: butlast_append)
  also have "\<dots> = reduceWhile cond stack' operators"
    by (rule snoc.IH [OF cs rest])
  finally show ?case .
qed

lemma reduce_two:
  "reduce op (stack @ [left, right]) =
     (case createExpression op left right of
        Inl e \<Rightarrow> Inl e
      | Inr expr \<Rightarrow> Inr (stack @ [expr]))"
  by (simp add: reduce_def popExpression_def butlast_append)

text \<open>The tokens that are no operands.\<close>

lemma isVariable_not_isNumber: "isVariable token \<Longrightarrow> \<not> isNumber token"
  by (cases token) (auto simp: isVariable_def isNumber_def isLetter_def isDigit_def)

lemma operator_tokens:
  "isOperator op \<Longrightarrow> \<not> isNumber op"
  "isOperator op \<Longrightarrow> \<not> isVariable op"
  "isOperator op \<Longrightarrow> op \<noteq> ''(''"
  by (auto simp: isOperator_def isNumber_def isVariable_def isDigit_def isLetter_def)

lemma parenthesis_tokens:
  "\<not> isNumber ''(''" "\<not> isVariable ''(''" "\<not> isOperator ''(''"
  "\<not> isNumber '')''" "\<not> isVariable '')''" "\<not> isOperator '')''"
  by (simp_all add: isOperator_def isNumber_def isVariable_def isDigit_def isLetter_def)

lemma consumes_operand:
  assumes "parseTokens (token # rest) stack operators = parseTokens rest (stack @ [e]) operators"
  shows "\<exists>stack' pending.
           parseTokens ([token] @ rest) stack operators =
             parseTokens rest stack' (operators @ pending) \<and>
           list_all (\<lambda>op. isOperator op \<and> level \<le> precedence op) pending \<and>
           reduceWhile (\<lambda>top. True) stack' pending = Inr (stack @ [e], [])"
proof (intro exI conjI)
  show "parseTokens ([token] @ rest) stack operators =
        parseTokens rest (stack @ [e]) (operators @ [])"
    using assms by simp
  show "list_all (\<lambda>op. isOperator op \<and> level \<le> precedence op) []" by simp
  show "reduceWhile (\<lambda>top. True) (stack @ [e]) [] = Inr (stack @ [e], [])"
    by (rule reduceWhile_stop) simp
qed

lemma consumes_weaken:
  assumes "consumes (Suc level) tokens e"
  shows "consumes level tokens e"
  unfolding consumes_def
proof (intro allI impI)
  fix stack operators rest
  assume "operators = [] \<or> precedence (last operators) < level"
  then have "operators = [] \<or> precedence (last operators) < Suc level" by auto
  with assms obtain stack' pending where
    p: "parseTokens (tokens @ rest) stack operators =
          parseTokens rest stack' (operators @ pending)" and
    l: "list_all (\<lambda>op. isOperator op \<and> Suc level \<le> precedence op) pending" and
    r: "reduceWhile (\<lambda>top. True) stack' pending = Inr (stack @ [e], [])"
    unfolding consumes_def by blast
  from l have "list_all (\<lambda>op. isOperator op \<and> level \<le> precedence op) pending"
    by (auto simp: list_all_iff)
  with p r show "\<exists>stack' pending.
           parseTokens (tokens @ rest) stack operators =
             parseTokens rest stack' (operators @ pending) \<and>
           list_all (\<lambda>op. isOperator op \<and> level \<le> precedence op) pending \<and>
           reduceWhile (\<lambda>top. True) stack' pending = Inr (stack @ [e], [])"
    by blast
qed

lemma consumes_binary:
  assumes left: "consumes level tokens1 l"
    and right: "consumes (Suc level) tokens2 r"
    and op: "isOperator op" "precedence op = level"
    and node: "createExpression op l r = Inr e"
  shows "consumes level (tokens1 @ op # tokens2) e"
  unfolding consumes_def
proof (intro allI impI)
  fix stack operators rest
  assume low: "operators = [] \<or> precedence (last operators) < level"
  let ?ge = "\<lambda>top. precedence op \<le> precedence top"
  from left low obtain stack1 pending1 where
    p1: "parseTokens (tokens1 @ (op # tokens2 @ rest)) stack operators =
           parseTokens (op # tokens2 @ rest) stack1 (operators @ pending1)" and
    l1: "list_all (\<lambda>op. isOperator op \<and> level \<le> precedence op) pending1" and
    r1: "reduceWhile (\<lambda>top. True) stack1 pending1 = Inr (stack @ [l], [])"
    unfolding consumes_def by blast
  from l1 op(2) have "list_all ?ge pending1" by (auto simp: list_all_iff)
  from reduceWhile_pending [OF this r1]
  have "reduceWhile ?ge stack1 (operators @ pending1) = reduceWhile ?ge (stack @ [l]) operators" .
  also have "\<dots> = Inr (stack @ [l], operators)"
    using low op(2) by (auto intro!: reduceWhile_stop)
  finally have w: "reduceWhile ?ge stack1 (operators @ pending1) = Inr (stack @ [l], operators)" .
  have p2: "parseTokens (op # tokens2 @ rest) stack1 (operators @ pending1) =
            parseTokens (tokens2 @ rest) (stack @ [l]) (operators @ [op])"
    using op(1) w by (simp add: operator_tokens)
  have "operators @ [op] = [] \<or> precedence (last (operators @ [op])) < Suc level"
    using op(2) by simp
  with right obtain stack2 pending2 where
    p3: "parseTokens (tokens2 @ rest) (stack @ [l]) (operators @ [op]) =
           parseTokens rest stack2 ((operators @ [op]) @ pending2)" and
    l2: "list_all (\<lambda>op. isOperator op \<and> Suc level \<le> precedence op) pending2" and
    r2: "reduceWhile (\<lambda>top. True) stack2 pending2 = Inr ((stack @ [l]) @ [r], [])"
    unfolding consumes_def by blast
  from l2 have t: "list_all (\<lambda>top. True) pending2" by (simp add: list_all_iff)
  have "reduceWhile (\<lambda>top. True) stack2 ([op] @ pending2) =
        reduceWhile (\<lambda>top. True) ((stack @ [l]) @ [r]) [op]"
    by (rule reduceWhile_pending [OF t r2])
  also have "\<dots> = Inr (stack @ [e], [])"
    using node by (subst reduceWhile.simps) (simp add: reduce_two reduceWhile_stop)
  finally have r3: "reduceWhile (\<lambda>top. True) stack2 (op # pending2) = Inr (stack @ [e], [])"
    by simp
  have l3: "list_all (\<lambda>op. isOperator op \<and> level \<le> precedence op) (op # pending2)"
    using l2 op by (auto simp: list_all_iff)
  have "parseTokens ((tokens1 @ op # tokens2) @ rest) stack operators =
        parseTokens rest stack2 (operators @ op # pending2)"
    using p1 p2 p3 by simp
  with l3 r3 show "\<exists>stack' pending.
           parseTokens ((tokens1 @ op # tokens2) @ rest) stack operators =
             parseTokens rest stack' (operators @ pending) \<and>
           list_all (\<lambda>op. isOperator op \<and> level \<le> precedence op) pending \<and>
           reduceWhile (\<lambda>top. True) stack' pending = Inr (stack @ [e], [])"
    by blast
qed

lemma consumes_parentheses:
  assumes inner: "consumes 1 tokens e"
  shows "consumes 3 (''('' # tokens @ ['')'']) e"
  unfolding consumes_def
proof (intro allI impI)
  fix stack operators rest
  let ?open = "\<lambda>top. top \<noteq> ''(''"
  have "operators @ [''(''] = [] \<or> precedence (last (operators @ [''(''])) < 1"
    by (simp add: precedence_def)
  with inner obtain stack1 pending1 where
    p1: "parseTokens (tokens @ ('')'' # rest)) stack (operators @ [''('']) =
           parseTokens ('')'' # rest) stack1 ((operators @ [''('']) @ pending1)" and
    l1: "list_all (\<lambda>op. isOperator op \<and> 1 \<le> precedence op) pending1" and
    r1: "reduceWhile (\<lambda>top. True) stack1 pending1 = Inr (stack @ [e], [])"
    unfolding consumes_def by blast
  from l1 have "list_all ?open pending1"
    by (auto simp: list_all_iff operator_tokens)
  from reduceWhile_pending [OF this r1]
  have "reduceWhile ?open stack1 ((operators @ [''('']) @ pending1) =
        reduceWhile ?open (stack @ [e]) (operators @ [''(''])" .
  also have "\<dots> = Inr (stack @ [e], operators @ [''(''])"
    by (rule reduceWhile_stop) simp
  finally have w: "reduceWhile ?open stack1 ((operators @ [''('']) @ pending1) =
                   Inr (stack @ [e], operators @ [''(''])" .
  have p0: "parseTokens ((''('' # tokens @ ['')'']) @ rest) stack operators =
            parseTokens (tokens @ ('')'' # rest)) stack (operators @ [''(''])"
    by (simp add: parenthesis_tokens)
  have p2: "parseTokens ('')'' # rest) stack1 ((operators @ [''('']) @ pending1) =
            parseTokens rest (stack @ [e]) operators"
    using w by (simp add: parenthesis_tokens)
  have "parseTokens ((''('' # tokens @ ['')'']) @ rest) stack operators =
        parseTokens rest (stack @ [e]) (operators @ [])"
    using p0 p1 p2 by simp
  moreover have "list_all (\<lambda>op. isOperator op \<and> 3 \<le> precedence op) []" by simp
  moreover have "reduceWhile (\<lambda>top. True) (stack @ [e]) [] = Inr (stack @ [e], [])"
    by (rule reduceWhile_stop) simp
  ultimately show "\<exists>stack' pending.
           parseTokens ((''('' # tokens @ ['')'']) @ rest) stack operators =
             parseTokens rest stack' (operators @ pending) \<and>
           list_all (\<lambda>op. isOperator op \<and> 3 \<le> precedence op) pending \<and>
           reduceWhile (\<lambda>top. True) stack' pending = Inr (stack @ [e], [])"
    by blast
qed

lemma derives_consumes: "derives level tokens e \<Longrightarrow> consumes level tokens e"
proof (induction rule: derives.induct)
  case (number token)
  then show ?case unfolding consumes_def
    by (intro allI impI consumes_operand) simp
next
  case (variable token)
  then show ?case unfolding consumes_def
    by (intro allI impI consumes_operand) (simp add: isVariable_not_isNumber)
next
  case (parentheses tokens e)
  from parentheses.IH show ?case by (rule consumes_parentheses)
next
  case (fromFactor tokens e)
  then show ?case by (simp add: numeral_3_eq_3 numeral_2_eq_2 consumes_weaken)
next
  case (multiply tokens1 left tokens2 right)
  show ?case
  proof (rule consumes_binary)
    show "consumes 2 tokens1 left" by (rule multiply.IH(1))
    show "consumes (Suc 2) tokens2 right" using multiply.IH(2) by (simp add: numeral_3_eq_3 numeral_2_eq_2)
  qed (simp_all add: isOperator_def precedence_def createExpression_def)
next
  case (divide tokens1 left tokens2 right)
  show ?case
  proof (rule consumes_binary)
    show "consumes 2 tokens1 left" by (rule divide.IH(1))
    show "consumes (Suc 2) tokens2 right" using divide.IH(2) by (simp add: numeral_3_eq_3 numeral_2_eq_2)
  qed (simp_all add: isOperator_def precedence_def createExpression_def)
next
  case (fromTerm tokens e)
  then show ?case by (simp add: numeral_2_eq_2 consumes_weaken)
next
  case (add tokens1 left tokens2 right)
  show ?case
  proof (rule consumes_binary)
    show "consumes 1 tokens1 left" by (rule add.IH(1))
    show "consumes (Suc 1) tokens2 right" using add.IH(2) by (simp add: numeral_2_eq_2)
  qed (simp_all add: isOperator_def precedence_def createExpression_def)
next
  case (subtract tokens1 left tokens2 right)
  show ?case
  proof (rule consumes_binary)
    show "consumes 1 tokens1 left" by (rule subtract.IH(1))
    show "consumes (Suc 1) tokens2 right" using subtract.IH(2) by (simp add: numeral_2_eq_2)
  qed (simp_all add: isOperator_def precedence_def createExpression_def)
qed

text \<open>The parser builds the tree of every expression of the grammar.\<close>

lemma parse_derives:
  assumes "derives 1 tokens e"
  shows "parse tokens = Inr e"
proof -
  from derives_consumes [OF assms] obtain stack' pending where
    p: "parseTokens (tokens @ []) [] [] = parseTokens [] stack' ([] @ pending)" and
    r: "reduceWhile (\<lambda>top. True) stack' pending = Inr ([] @ [e], [])"
    unfolding consumes_def by blast
  from p have "parseTokens tokens [] [] = Inr (stack', pending)" by simp
  with r show ?thesis by (simp add: parse_def)
qed

lemma parse_division_examples:
  "parse (tokenize ''10 / 0'') =
     Inr (DivideExpression (NumberExpression (Finite 10)) (NumberExpression (Finite 0)))"
  "parse (tokenize ''x / x'') =
     Inr (DivideExpression (VariableExpression ''x'') (VariableExpression ''x''))"
  "parse (tokenize ''x / y'') =
     Inr (DivideExpression (VariableExpression ''x'') (VariableExpression ''y''))"
  by code_simp+

text \<open>
  C4, as it is stated, fails in its second part: a division whose divisor
  is not 0 returns \<open>NaN\<close> or an infinity as the host computes them. With
  \<open>x\<close> set to \<open>Infinity\<close>, \<open>x / x\<close> evaluates to \<open>NaN\<close>; with \<open>x\<close> set to
  \<open>2^1023\<close> and \<open>y\<close> to one half, \<open>x / y\<close> overflows to \<open>Infinity\<close>.
\<close>

theorem division_sentinel_counterexample:
  "evaluate (calcSetVariable newCalculator ''x'' PosInfinity) ''x / x'' = Inr NaN \<and>
   evaluate
     (calcSetVariable (calcSetVariable newCalculator ''x'' (Finite (2 ^ 1023))) ''y''
        (Finite (1 / 2)))
     ''x / y'' = Inr PosInfinity"
  by (simp add: evaluate_def parse_division_examples calcSetVariable_def newCalculator_def
      newContext_def setVariable_def getVariable_def finiteResult_def)

text \<open>
  C4, amended: for every division node and context, if the right operand
  evaluates to 0 then evaluating the node raises the division-by-zero error,
  whatever the left operand is, so that a division by 0 returns no number (no
  infinity, no \<open>NaN\<close>); and \<open>evaluate\<close> raises this error on \<open>10 / 0\<close>.
\<close>

theorem division_by_zero_raises:
  assumes "interpretExpression right ctx = Inr (Finite 0)"
  shows "interpretExpression (DivideExpression left right) ctx = Inl DivisionByZero \<and>
         evaluate calc ''10 / 0'' = Inl DivisionByZero"
  using assms by (simp add: evaluate_def parse_division_examples)

theorem division_by_zero_raises_witness:
  "interpretExpression (NumberExpression (Finite 0)) newContext = Inr (Finite 0) \<and>
   interpretExpression
     (DivideExpression (VariableExpression ''x'') (NumberExpression (Finite 0))) newContext =
     Inl DivisionByZero \<and>
   evaluate newCalculator ''10 / 0'' = Inl DivisionByZero"
proof -
  have h: "interpretExpression (NumberExpression (Finite 0)) newContext = Inr (Finite 0)"
    by simp
  from h division_by_zero_raises [OF h, of "VariableExpression ''x''" newCalculator]
  show ?thesis by simp
qed

lemma evaluate_precedence_examples:
  "evaluate newCalculator ''2 + 3 * 4'' = Inr (Finite 14)"
  "evaluate newCalculator ''(2 + 3) * 4'' = Inr (Finite 20)"
  by code_simp+

text \<open>
  C5: the precedence of \<open>*\<close> and \<open>/\<close> is 2 and that of \<open>+\<close> and \<open>-\<close> is 1,
  and for every list of tokens that is an expression of the grammar of these
  precedences (\<open>*\<close> and \<open>/\<close> bind before \<open>+\<close> and \<open>-\<close>, operators of one
  precedence group from left to right, parentheses enclose an expression),
  the parser builds the tree of the grammar, and \<open>evaluate\<close> on a source
  string with these tokens returns the value of that tree; \<open>2 + 3 * 4\<close>
  evaluates to 14 and \<open>(2 + 3) * 4\<close> to 20 in the empty context.
\<close>

theorem precedence_and_parentheses:
  assumes "derives 1 tokens e" and "tokenize expression = tokens"
  shows "parse tokens = Inr e \<and>
         evaluate calc expression = interpretExpression e (calcContext calc) \<and>
         precedence ''*'' = 2 \<and> precedence ''/'' = 2 \<and>
         precedence ''+'' = 1 \<and> precedence ''-'' = 1 \<and>
         evaluate newCalculator ''2 + 3 * 4'' = Inr (Finite 14) \<and>
         evaluate newCalculator ''(2 + 3) * 4'' = Inr (Finite 20)"
proof -
  have p: "parse tokens = Inr e" using assms(1) by (rule parse_derives)
  with assms(2) have "evaluate calc expression = interpretExpression e (calcContext calc)"
    by (simp add: evaluate_def)
  with p show ?thesis
    by (simp add: precedence_def evaluate_precedence_examples)
qed

lemma witness_tokens:
  "tokenize ''8 - 3 * 2 / (1 + 1) - 2'' =
     [''8'', ''-'', ''3'', ''*'', ''2'', ''/'', ''('', ''1'', ''+'', ''1'', '')'', ''-'', ''2'']"
  by code_simp

lemma witness_numbers:
  "derives 3 [''8''] (NumberExpression (Finite 8))"
  "derives 3 [''3''] (NumberExpression (Finite 3))"
  "derives 3 [''2''] (NumberExpression (Finite 2))"
  "derives 3 [''1''] (NumberExpression (Finite 1))"
proof -
  have n: "isNumber ''8''" "isNumber ''3''" "isNumber ''2''" "isNumber ''1''"
    by code_simp+
  have v: "parseFloat ''8'' = Finite 8" "parseFloat ''3'' = Finite 3"
    "parseFloat ''2'' = Finite 2" "parseFloat ''1'' = Finite 1"
    by code_simp+
  from n [THEN derives.number] v
  show "derives 3 [''8''] (NumberExpression (Finite 8))"
    "derives 3 [''3''] (NumberExpression (Finite 3))"
    "derives 3 [''2''] (NumberExpression (Finite 2))"
    "derives 3 [''1''] (NumberExpression (Finite 1))"
    by simp_all
qed

lemma witness_derivation:
  "derives 1
     [''8'', ''-'', ''3'', ''*'', ''2'', ''/'', ''('', ''1'', ''+'', ''1'', '')'', ''-'', ''2'']
     (SubtractExpression
        (SubtractExpression (NumberExpression (Finite 8))
           (DivideExpression
              (MultiplyExpression (NumberExpression (Finite 3)) (NumberExpression (Finite 2)))
              (AddExpression (NumberExpression (Finite 1)) (NumberExpression (Finite 1)))))
        (NumberExpression (Finite 2)))"
proof -
  note f = derives.fromFactor and t = derives.fromTerm
  have sum: "derives 1 [''1'', ''+'', ''1'']
      (AddExpression (NumberExpression (Finite 1)) (NumberExpression (Finite 1)))"
    using derives.add [OF t [OF f [OF witness_numbers(4)]] f [OF witness_numbers(4)]]
    by simp
  have paren: "derives 3 [''('', ''1'', ''+'', ''1'', '')'']
      (AddExpression (NumberExpression (Finite 1)) (NumberExpression (Finite 1)))"
    using derives.parentheses [OF sum] by simp
  have prod: "derives 2 [''3'', ''*'', ''2'']
      (MultiplyExpression (NumberExpression (Finite 3)) (NumberExpression (Finite 2)))"
    using derives.multiply [OF f [OF witness_numbers(2)] witness_numbers(3)] by simp
  have quot: "derives 2 [''3'', ''*'', ''2'', ''/'', ''('', ''1'', ''+'', ''1'', '')'']
      (DivideExpression
         (MultiplyExpression (NumberExpression (Finite 3)) (NumberExpression (Finite 2)))
         (AddExpression (NumberExpression (Finite 1)) (NumberExpression (Finite 1))))"
    using derives.divide [OF prod paren] by simp
  have diff: "derives 1
      [''8'', ''-'', ''3'', ''*'', ''2'', ''/'', ''('', ''1'', ''+'', ''1'', '')'']
      (SubtractExpression (NumberExpression (Finite 8))
         (DivideExpression
            (MultiplyExpression (NumberExpression (Finite 3)) (NumberExpression (Finite 2)))
            (AddExpression (NumberExpression (Finite 1)) (NumberExpression (Finite 1)))))"
    using derives.subtract [OF t [OF f [OF witness_numbers(1)]] quot] by simp
  show ?thesis
    using derives.subtract [OF diff f [OF witness_numbers(3)]] by simp
qed

theorem precedence_and_parentheses_witness:
  "derives 1
     [''8'', ''-'', ''3'', ''*'', ''2'', ''/'', ''('', ''1'', ''+'', ''1'', '')'', ''-'', ''2'']
     (SubtractExpression
        (SubtractExpression (NumberExpression (Finite 8))
           (DivideExpression
              (MultiplyExpression (NumberExpression (Finite 3)) (NumberExpression (Finite 2)))
              (AddExpression (NumberExpression (Finite 1)) (NumberExpression (Finite 1)))))
        (NumberExpression (Finite 2))) \<and>
   tokenize ''8 - 3 * 2 / (1 + 1) - 2'' =
     [''8'', ''-'', ''3'', ''*'', ''2'', ''/'', ''('', ''1'', ''+'', ''1'', '')'', ''-'', ''2''] \<and>
   parse [''8'', ''-'', ''3'', ''*'', ''2'', ''/'', ''('', ''1'', ''+'', ''1'', '')'', ''-'', ''2''] =
     Inr (SubtractExpression
            (SubtractExpression (NumberExpression (Finite 8))
               (DivideExpression
                  (MultiplyExpression (NumberExpression (Finite 3)) (NumberExpression (Finite 2)))
                  (AddExpression (NumberExpression (Finite 1)) (NumberExpression (Finite 1)))))
            (NumberExpression (Finite 2))) \<and>
   evaluate newCalculator ''8 - 3 * 2 / (1 + 1) - 2'' = Inr (Finite 3)"
proof -
  have v: "interpretExpression
      (SubtractExpression
        (SubtractExpression (NumberExpression (Finite 8))
           (DivideExpression
              (MultiplyExpression (NumberExpression (Finite 3)) (NumberExpression (Finite 2)))
              (AddExpression (NumberExpression (Finite 1)) (NumberExpression (Finite 1)))))
        (NumberExpression (Finite 2)))
      (calcContext newCalculator) = Inr (Finite 3)"
    by (simp add: numSub_def numNeg_def finiteResult_def)
  from precedence_and_parentheses [OF witness_derivation witness_tokens, of newCalculator]
    witness_derivation witness_tokens v
  show ?thesis by simp
qed

lemma tokenize_blank_examples:
  "tokenize [] = []"
  "tokenize ''   '' = []"
  by code_simp+

text \<open>
  C6, as the claim states it, fails: on the empty string the parser raises
  nothing and returns \<open>undefined\<close>; the error of \<open>evaluate\<close> is the
  \<open>TypeError\<close> of calling \<open>interpret\<close> on \<open>undefined\<close>.
\<close>

theorem empty_expression_counterexample:
  "parse (tokenize []) = Inr UndefinedExpression \<and>
   evaluate newCalculator [] = Inl TypeError"
  by (simp add: tokenize_blank_examples parse_def evaluate_def reduceWhile_stop)

text \<open>
  C6, amended: for every source string without tokens, the parser returns
  \<open>undefined\<close> without raising, and \<open>evaluate\<close> fails with the \<open>TypeError\<close>
  of calling \<open>interpret\<close> on it.
\<close>

theorem empty_expression_type_error:
  assumes "tokenize expression = []"
  shows "parse (tokenize expression) = Inr UndefinedExpression \<and>
         evaluate calc expression = Inl TypeError"
  using assms by (simp add: parse_def evaluate_def reduceWhile_stop)

theorem empty_expression_type_error_witness:
  "tokenize ''   '' = [] \<and>
   parse (tokenize ''   '') = Inr UndefinedExpression \<and>
   evaluate newCalculator ''   '' = Inl TypeError"
proof -
  have h: "tokenize ''   '' = []" by (rule tokenize_blank_examples)
  from h empty_expression_type_error [OF h, of newCalculator] show ?thesis by simp
qed

lemma evaluate_undefined_variable_example:
  "evaluate newCalculator ''x + 1'' = Inr (Finite 1)"
  by code_simp

text \<open>
  C7: for every context and every name that the context does not have,
  \<open>getVariable\<close> and the evaluation of the variable node return 0 and raise
  nothing; in the empty context \<open>x + 1\<close> evaluates to 1.
\<close>

theorem undefined_variable_is_zero:
  assumes "\<not> hasVariable ctx name"
  shows "getVariable ctx name = Finite 0 \<and>
         interpretExpression (VariableExpression name) ctx = Inr (Finite 0) \<and>
         evaluate newCalculator ''x + 1'' = Inr (Finite 1)"
  using assms by (simp add: hasVariable_def getVariable_def evaluate_undefined_variable_example)

theorem undefined_variable_is_zero_witness:
  "\<not> hasVariable newContext ''x'' \<and>
   getVariable newContext ''x'' = Finite 0 \<and>
   interpretExpression (VariableExpression ''x'') newContext = Inr (Finite 0) \<and>
   evaluate newCalculator ''x + 1'' = Inr (Finite 1)"
proof -
  have h: "\<not> hasVariable newContext ''x''"
    by (simp add: hasVariable_def newContext_def)
  from h undefined_variable_is_zero [OF h] show ?thesis by simp
qed

section \<open>Properties of the SQL interpreter\<close>

lemma parseSQL_examples:
  "parseSQL ''SELECT * FROM users WHERE age >= 28'' =
     Inr (SelectExpression [''*''] ''users''
           (Some (WhereExpression ''age'' ''>'' (JSString ''= 28''))))"
  "parseSQL ''SELECT * FROM users WHERE age <= 28'' =
     Inr (SelectExpression [''*''] ''users''
           (Some (WhereExpression ''age'' ''<'' (JSString ''= 28''))))"
  "parseSQL ''SELECT * FROM users WHERE age > 28'' =
     Inr (SelectExpression [''*''] ''users''
           (Some (WhereExpression ''age'' ''>'' (JSNumber (Finite 28)))))"
  "parseSQL ''SELECT * FROM users WHERE name LIKE an'' =
     Inr (SelectExpression [''*''] ''users''
           (Some (WhereExpression ''name'' ''LIKE'' (JSString ''an''))))"
  "parseSQL ''SELECT * FROM users WHERE name like an'' =
     Inr (SelectExpression [''*''] ''users''
           (Some (WhereExpression ''name'' ''like'' (JSString ''an''))))"
  "parseSQL ''SELECT * FROM users WHERE constructor LIKE Object'' =
     Inr (SelectExpression [''*''] ''users''
           (Some (WhereExpression ''constructor'' ''LIKE'' (JSString ''Object''))))"
  by code_simp+

lemma stringToNumber_example: "stringToNumber ''= 28'' = NaN"
  by code_simp

text \<open>
  \<open>WhereExpression.evaluate\<close> itself compares with \<open>>=\<close> as the host does,
  and a query with \<open>>\<close> and a number is parsed and executed as written.
\<close>

lemma evaluateWhere_ge_example:
  "evaluateWhere host (WhereExpression ''age'' ''>='' (JSNumber (Finite 28)))
     [''age'' \<mapsto> JSNumber (Finite 30)] = Inr True"
  by (simp add: getProperty_def toPrimitive_def greaterOrEqual_def isLessThan_def toNumber_def)

lemma execute_gt_example:
  "execute host (sqlAddTable newSQLInterpreter ''users'' [[''age'' \<mapsto> JSNumber (Finite 30)]])
     ''SELECT * FROM users WHERE age > 28'' = Inr [[''age'' \<mapsto> JSNumber (Finite 30)]]"
  by (simp add: execute_def parseSQL_examples sqlAddTable_def newSQLInterpreter_def
      newSQLContext_def addTable_def getTable_def getProperty_def toPrimitive_def
      greaterThan_def isLessThan_def toNumber_def)

text \<open>
  C3 (the code at the failing input): the pattern of the WHERE clause
  tries \<open>>\<close> before \<open>>=\<close> and \<open><\<close> before \<open><=\<close>, so \<open>age >= 28\<close> is parsed as
  the operator \<open>>\<close> with the string \<open>= 28\<close> as its value, and \<open>age <= 28\<close> as
  \<open><\<close> with the same string. The string is not a number, the comparison of
  a number with it is false, and the query returns no row: neither the row
  with age 30 for \<open>>= 28\<close> nor the row with age 20 for \<open><= 28\<close>.
\<close>

theorem where_two_character_operators:
  "parseSQL ''SELECT * FROM users WHERE age >= 28'' =
     Inr (SelectExpression [''*''] ''users''
           (Some (WhereExpression ''age'' ''>'' (JSString ''= 28'')))) \<and>
   execute host (sqlAddTable newSQLInterpreter ''users'' [[''age'' \<mapsto> JSNumber (Finite 30)]])
     ''SELECT * FROM users WHERE age >= 28'' = Inr [] \<and>
   parseSQL ''SELECT * FROM users WHERE age <= 28'' =
     Inr (SelectExpression [''*''] ''users''
           (Some (WhereExpression ''age'' ''<'' (JSString ''= 28'')))) \<and>
   execute host (sqlAddTable newSQLInterpreter ''users'' [[''age'' \<mapsto> JSNumber (Finite 20)]])
     ''SELECT * FROM users WHERE age <= 28'' = Inr []"
  by (simp add: execute_def parseSQL_examples sqlAddTable_def newSQLInterpreter_def
      newSQLContext_def addTable_def getTable_def getProperty_def toPrimitive_def
      greaterThan_def lessThan_def isLessThan_def toNumber_def stringToNumber_example)

lemma filterRows_error:
  "filterRows p rs = Inl e \<Longrightarrow> \<exists>r \<in> set rs. p r = Inl e"
  by (induction rs arbitrary: e) (auto split: sum.splits)

lemma filterRows_raises:
  "r \<in> set rs \<Longrightarrow> p r = Inl e \<Longrightarrow> \<exists>e'. filterRows p rs = Inl e'"
  by (induction rs) (auto split: sum.splits)

lemma like_error:
  "evaluateWhere host (WhereExpression column ''LIKE'' v) r = Inl e \<Longrightarrow> e = TypeError"
  by (auto simp: propertyToString_def toStringMethod_def
      split: sum.splits JSValue.splits PropertyValue.splits)

lemma like_missing_column:
  "r column = None \<Longrightarrow> column \<notin> set objectPrototypeNames \<Longrightarrow>
   evaluateWhere host (WhereExpression column ''LIKE'' v) r = Inl TypeError"
  by (simp add: getProperty_def propertyToString_def toStringMethod_def)

lemma constructor_text_example: "stringIncludes (nativeText ''constructor'') ''Object''"
  by code_simp

text \<open>
  C9, as it is stated, fails in two ways on the table whose one row is
  \<open>{id: 2}\<close>, which lacks the columns \<open>name\<close> and \<open>constructor\<close>. The
  operator written \<open>like\<close> is accepted by the pattern but is no case of the
  \<open>switch\<close>: the query returns no row and raises nothing. The column
  \<open>constructor\<close> reads as the inherited member of the row, whose text
  contains \<open>Object\<close>: the query returns the row and raises nothing.
\<close>

theorem like_counterexample:
  "execute sampleHost (sqlAddTable newSQLInterpreter ''users'' [[''id'' \<mapsto> JSNumber (Finite 2)]])
     ''SELECT * FROM users WHERE name like an'' = Inr [] \<and>
   execute sampleHost (sqlAddTable newSQLInterpreter ''users'' [[''id'' \<mapsto> JSNumber (Finite 2)]])
     ''SELECT * FROM users WHERE constructor LIKE Object'' =
     Inr [[''id'' \<mapsto> JSNumber (Finite 2)]]"
  by (simp add: execute_def parseSQL_examples sqlAddTable_def newSQLInterpreter_def
      newSQLContext_def addTable_def getTable_def getProperty_def objectPrototypeNames_def
      propertyToString_def toStringMethod_def sampleHost_def constructor_text_example)

text \<open>
  C9, amended: if the query parses to a selection whose WHERE predicate has
  the operator \<open>LIKE\<close> in upper case, and some row of the table of the query
  has no own property of the name of the column, which is not the name of an
  inherited member either, then \<open>execute\<close> raises a \<open>TypeError\<close> and returns
  no rows.
\<close>

theorem like_on_missing_column_raises:
  assumes "parseSQL sql =
             Inr (SelectExpression columns table (Some (WhereExpression column ''LIKE'' v)))"
    and "r \<in> set (getTable (sqlContext interp) table)"
    and "r column = None"
    and "column \<notin> set objectPrototypeNames"
  shows "execute host interp sql = Inl TypeError"
proof -
  let ?w = "WhereExpression column ''LIKE'' v"
  let ?rows = "getTable (sqlContext interp) table"
  from assms(3,4) have "evaluateWhere host ?w r = Inl TypeError"
    by (rule like_missing_column)
  with assms(2) obtain e where e: "filterRows (evaluateWhere host ?w) ?rows = Inl e"
    using filterRows_raises [of r ?rows "evaluateWhere host ?w" TypeError] by blast
  from filterRows_error [OF e] like_error have "e = TypeError" by blast
  with e assms(1) show ?thesis by (simp add: execute_def)
qed

theorem like_on_missing_column_raises_witness:
  "parseSQL ''SELECT * FROM users WHERE name LIKE an'' =
     Inr (SelectExpression [''*''] ''users''
           (Some (WhereExpression ''name'' ''LIKE'' (JSString ''an'')))) \<and>
   [''id'' \<mapsto> JSNumber (Finite 2)] \<in>
     set (getTable
           (sqlContext (sqlAddTable newSQLInterpreter ''users''
              [[''name'' \<mapsto> JSString ''anna''], [''id'' \<mapsto> JSNumber (Finite 2)]]))
           ''users'') \<and>
   [''id'' \<mapsto> JSNumber (Finite 2)] ''name'' = None \<and>
   ''name'' \<notin> set objectPrototypeNames \<and>
   execute sampleHost
     (sqlAddTable newSQLInterpreter ''users''
        [[''name'' \<mapsto> JSString ''anna''], [''id'' \<mapsto> JSNumber (Finite 2)]])
     ''SELECT * FROM users WHERE name LIKE an'' = Inl TypeError"
proof -
  have p: "parseSQL ''SELECT * FROM users WHERE name LIKE an'' =
     Inr (SelectExpression [''*''] ''users''
           (Some (WhereExpression ''name'' ''LIKE'' (JSString ''an''))))"
    by (rule parseSQL_examples)
  have r: "[''id'' \<mapsto> JSNumber (Finite 2)] \<in>
     set (getTable
           (sqlContext (sqlAddTable newSQLInterpreter ''users''
              [[''name'' \<mapsto> JSString ''anna''], [''id'' \<mapsto> JSNumber (Finite 2)]]))
           ''users'')"
    by (simp add: sqlAddTable_def newSQLInterpreter_def newSQLContext_def addTable_def
        getTable_def)
  have m: "[''id'' \<mapsto> JSNumber (Finite 2)] ''name'' = None"
    by simp
  have n: "''name'' \<notin> set objectPrototypeNames"
    by (simp add: objectPrototypeNames_def)
  from p r m n like_on_missing_column_raises [OF p r m n, of sampleHost] show ?thesis
    by blast
qed

section \<open>Properties of the regular-expression interpreter\<close>

text \<open>The equations of \<open>match\<close>, one for each class.\<close>

lemma match_0: "match 0 e ctx = None"
  by simp

lemma match_Character:
  "match (Suc n) (CharacterExpression c) ctx =
     (if getCurrentChar ctx = c then Some (True, advance ctx) else Some (False, ctx))"
  by simp

lemma match_Dot:
  "match (Suc n) DotExpression ctx =
     (if \<not> isAtEnd ctx then Some (True, advance ctx) else Some (False, ctx))"
  by simp

lemma match_Sequence:
  "match (Suc n) (SequenceExpression es) ctx = sequenceLoop (match n) es (getPosition ctx) ctx"
  by simp

lemma match_Alternation:
  "match (Suc n) (AlternationExpression l r) ctx =
     (case match n l ctx of
        None \<Rightarrow> None
      | Some (ok, ctx') \<Rightarrow>
          if ok then Some (True, ctx') else match n r (setPosition ctx' (getPosition ctx)))"
  by simp

lemma match_ZeroOrMore:
  "match (Suc n) (ZeroOrMoreExpression e) ctx =
     (case match n e ctx of
        None \<Rightarrow> None
      | Some (ok, ctx') \<Rightarrow>
          if ok then match n (ZeroOrMoreExpression e) ctx' else Some (True, ctx'))"
  by simp

lemmas match_Suc_simps =
  match_Character match_Dot match_Sequence match_Alternation match_ZeroOrMore

declare match.simps [simp del]

text \<open>A call that returns with some fuel returns the same with more fuel.\<close>

lemma sequenceLoop_mono:
  assumes "\<And>e c r. m e c = Some r \<Longrightarrow> m' e c = Some r"
  shows "sequenceLoop m es start ctx = Some r \<Longrightarrow> sequenceLoop m' es start ctx = Some r"
proof (induction es arbitrary: ctx)
  case Nil
  then show ?case by simp
next
  case (Cons e es)
  from Cons.prems obtain ok c' where m: "m e ctx = Some (ok, c')"
    by (auto split: option.splits)
  then have m': "m' e ctx = Some (ok, c')" by (rule assms)
  show ?case
  proof (cases ok)
    case True
    with Cons.prems m have "sequenceLoop m es start c' = Some r" by simp
    then have "sequenceLoop m' es start c' = Some r" by (rule Cons.IH)
    with True m' show ?thesis by simp
  next
    case False
    with Cons.prems m m' show ?thesis by simp
  qed
qed

lemma match_Suc_mono: "match n e ctx = Some res \<Longrightarrow> match (Suc n) e ctx = Some res"
proof (induction n arbitrary: e ctx res)
  case 0
  then show ?case by (simp add: match_0)
next
  case (Suc n)
  show ?case
  proof (cases e)
    case (CharacterExpression c)
    with Suc.prems show ?thesis by (simp add: match_Character)
  next
    case DotExpression
    with Suc.prems show ?thesis by (simp add: match_Dot)
  next
    case (SequenceExpression es)
    from Suc.prems have "sequenceLoop (match n) es (getPosition ctx) ctx = Some res"
      unfolding SequenceExpression by (simp add: match_Sequence)
    then have "sequenceLoop (match (Suc n)) es (getPosition ctx) ctx = Some res"
      by (rule sequenceLoop_mono [rotated]) (rule Suc.IH)
    then show ?thesis unfolding SequenceExpression by (simp add: match_Sequence)
  next
    case (AlternationExpression l r)
    from Suc.prems obtain ok c' where l: "match n l ctx = Some (ok, c')"
      unfolding AlternationExpression by (auto simp: match_Alternation split: option.splits)
    then have l': "match (Suc n) l ctx = Some (ok, c')" by (rule Suc.IH)
    show ?thesis
    proof (cases ok)
      case True
      with Suc.prems l l' show ?thesis unfolding AlternationExpression
        by (auto simp: match_Alternation)
    next
      case False
      with Suc.prems l have "match n r (setPosition c' (getPosition ctx)) = Some res"
        unfolding AlternationExpression by (simp add: match_Alternation)
      then have "match (Suc n) r (setPosition c' (getPosition ctx)) = Some res" by (rule Suc.IH)
      with False l' show ?thesis unfolding AlternationExpression
        by (simp add: match_Alternation)
    qed
  next
    case (ZeroOrMoreExpression e')
    from Suc.prems obtain ok c' where l: "match n e' ctx = Some (ok, c')"
      unfolding ZeroOrMoreExpression by (auto simp: match_ZeroOrMore split: option.splits)
    then have l': "match (Suc n) e' ctx = Some (ok, c')" by (rule Suc.IH)
    show ?thesis
    proof (cases ok)
      case True
      with Suc.prems l have "match n (ZeroOrMoreExpression e') c' = Some res"
        unfolding ZeroOrMoreExpression by (simp add: match_ZeroOrMore)
      then have "match (Suc n) (ZeroOrMoreExpression e') c' = Some res" by (rule Suc.IH)
      with True l' show ?thesis unfolding ZeroOrMoreExpression
        by (simp add: match_ZeroOrMore)
    next
      case False
      with Suc.prems l l' show ?thesis unfolding ZeroOrMoreExpression
        by (auto simp: match_ZeroOrMore)
    qed
  qed
qed

lemma match_mono: "match n e ctx = Some res \<Longrightarrow> n \<le> k \<Longrightarrow> match k e ctx = Some res"
  by (induction k) (auto simp: le_Suc_eq dest: match_Suc_mono)

lemma match_deterministic:
  assumes "match n e ctx = Some res" and "match k e ctx = Some res'"
  shows "res = res'"
proof -
  have "match (max n k) e ctx = Some res" using assms(1) by (rule match_mono) simp
  moreover have "match (max n k) e ctx = Some res'" using assms(2) by (rule match_mono) simp
  ultimately show ?thesis by simp
qed

text \<open>The loop of \<open>ZeroOrMoreExpression\<close> returns true or does not return.\<close>

lemma ZeroOrMore_never_fails:
  "match n (ZeroOrMoreExpression e) ctx \<noteq> Some (False, ctx')"
proof (induction n arbitrary: ctx)
  case 0
  then show ?case by (simp add: match_0)
next
  case (Suc n)
  then show ?case
    by (auto simp: match_ZeroOrMore split: option.splits)
qed

text \<open>A matcher that returns false leaves the cursor where it was.\<close>

lemma sequenceLoop_failure:
  "sequenceLoop m es start ctx = Some (False, ctx') \<Longrightarrow> position ctx' = start"
  by (induction es arbitrary: ctx) (auto simp: setPosition_def split: option.splits if_splits)

lemma match_failure_position:
  "match n e ctx = Some (False, ctx') \<Longrightarrow> position ctx' = position ctx"
proof (induction n arbitrary: e ctx ctx')
  case 0
  then show ?case by (simp add: match_0)
next
  case (Suc n)
  show ?case
  proof (cases e)
    case (CharacterExpression c)
    with Suc.prems show ?thesis by (simp add: match_Character split: if_splits)
  next
    case DotExpression
    with Suc.prems show ?thesis by (simp add: match_Dot split: if_splits)
  next
    case (SequenceExpression es)
    with Suc.prems show ?thesis
      by (simp add: match_Sequence getPosition_def sequenceLoop_failure)
  next
    case (AlternationExpression l r)
    from Suc.prems obtain c1 where
      l: "match n l ctx = Some (False, c1)" and
      r: "match n r (setPosition c1 (getPosition ctx)) = Some (False, ctx')"
      unfolding AlternationExpression
      by (auto simp: match_Alternation split: option.splits if_splits)
    from Suc.IH [OF r] show ?thesis by (simp add: setPosition_def getPosition_def)
  next
    case (ZeroOrMoreExpression e')
    with Suc.prems ZeroOrMore_never_fails show ?thesis by blast
  qed
qed

text \<open>No matcher changes the input string.\<close>

lemma sequenceLoop_input:
  assumes "\<And>e c b c'. m e c = Some (b, c') \<Longrightarrow> input c' = input c"
  shows "sequenceLoop m es start ctx = Some (b, ctx') \<Longrightarrow> input ctx' = input ctx"
proof (induction es arbitrary: ctx)
  case Nil
  then show ?case by simp
next
  case (Cons e es)
  from Cons.prems obtain ok c' where m: "m e ctx = Some (ok, c')"
    by (auto split: option.splits)
  then have i: "input c' = input ctx" by (rule assms)
  show ?case
  proof (cases ok)
    case True
    with Cons.prems m have "sequenceLoop m es start c' = Some (b, ctx')" by simp
    then have "input ctx' = input c'" by (rule Cons.IH)
    with i show ?thesis by simp
  next
    case False
    with Cons.prems m i show ?thesis by (auto simp: setPosition_def)
  qed
qed

lemma match_input: "match n e ctx = Some (b, ctx') \<Longrightarrow> input ctx' = input ctx"
proof (induction n arbitrary: e ctx b ctx')
  case 0
  then show ?case by (simp add: match_0)
next
  case (Suc n)
  show ?case
  proof (cases e)
    case (CharacterExpression c)
    with Suc.prems show ?thesis by (auto simp: match_Character advance_def split: if_splits)
  next
    case DotExpression
    with Suc.prems show ?thesis by (auto simp: match_Dot advance_def split: if_splits)
  next
    case (SequenceExpression es)
    from Suc.prems have "sequenceLoop (match n) es (getPosition ctx) ctx = Some (b, ctx')"
      unfolding SequenceExpression by (simp add: match_Sequence)
    then show ?thesis by (rule sequenceLoop_input [rotated]) (rule Suc.IH)
  next
    case (AlternationExpression l r)
    from Suc.prems obtain ok c1 where l: "match n l ctx = Some (ok, c1)"
      unfolding AlternationExpression by (auto simp: match_Alternation split: option.splits)
    from Suc.IH [OF l] have i: "input c1 = input ctx" .
    show ?thesis
    proof (cases ok)
      case True
      with Suc.prems l i show ?thesis unfolding AlternationExpression
        by (auto simp: match_Alternation)
    next
      case False
      with Suc.prems l have "match n r (setPosition c1 (getPosition ctx)) = Some (b, ctx')"
        unfolding AlternationExpression by (simp add: match_Alternation)
      from Suc.IH [OF this] i show ?thesis by (simp add: setPosition_def)
    qed
  next
    case (ZeroOrMoreExpression e')
    from Suc.prems obtain ok c1 where l: "match n e' ctx = Some (ok, c1)"
      unfolding ZeroOrMoreExpression by (auto simp: match_ZeroOrMore split: option.splits)
    from Suc.IH [OF l] have i: "input c1 = input ctx" .
    show ?thesis
    proof (cases ok)
      case True
      with Suc.prems l have "match n (ZeroOrMoreExpression e') c1 = Some (b, ctx')"
        unfolding ZeroOrMoreExpression by (simp add: match_ZeroOrMore)
      from Suc.IH [OF this] i show ?thesis by simp
    next
      case False
      with Suc.prems l i show ?thesis unfolding ZeroOrMoreExpression
        by (auto simp: match_ZeroOrMore)
    qed
  qed
qed

text \<open>
  On the trees of \<open>parsePattern\<close> the cursor stays inside the input or just
  behind it.
\<close>

lemma parseLoop_singleChars:
  "list_all singleChars es \<Longrightarrow> singleChars (parseLoop p es)"
proof (induction p arbitrary: es)
  case Nil
  then show ?case by simp
next
  case (Cons c p)
  have "es \<noteq> [] \<Longrightarrow> list_all singleChars (butlast es @ [ZeroOrMoreExpression (last es)])"
    using Cons.prems by (cases es rule: rev_cases) simp_all
  with Cons show ?case by simp
qed

lemma parsePattern_singleChars: "singleChars (parsePattern p)"
  by (simp add: parsePattern_def parseLoop_singleChars)

lemma sequenceLoop_inRange:
  assumes m: "\<And>e c b c'. e \<in> set es \<Longrightarrow> inRange c \<Longrightarrow> m e c = Some (b, c') \<Longrightarrow>
                 inRange c' \<and> input c' = input c"
    and st: "start \<le> length (input ctx)"
    and inr: "inRange ctx"
    and loop: "sequenceLoop m es start ctx = Some (b, ctx')"
  shows "inRange ctx' \<and> input ctx' = input ctx"
  using m st inr loop
proof (induction es arbitrary: ctx)
  case Nil
  then show ?case by simp
next
  case (Cons e es)
  from Cons.prems(4) obtain ok c1 where m1: "m e ctx = Some (ok, c1)"
    by (auto split: option.splits)
  have c1: "inRange c1 \<and> input c1 = input ctx"
    by (rule Cons.prems(1) [OF _ Cons.prems(3) m1]) simp
  show ?case
  proof (cases ok)
    case True
    with Cons.prems(4) m1 have loop': "sequenceLoop m es start c1 = Some (b, ctx')" by simp
    have m': "inRange c' \<and> input c' = input c"
      if "x \<in> set es" "inRange c" "m x c = Some (b, c')" for x c b c'
      by (rule Cons.prems(1) [OF _ that(2,3)]) (simp add: that(1))
    have st': "start \<le> length (input c1)" using c1 Cons.prems(2) by simp
    from c1 have inr': "inRange c1" by simp
    have "inRange ctx' \<and> input ctx' = input c1"
      by (rule Cons.IH [OF m' st' inr' loop'])
    with c1 show ?thesis by simp
  next
    case False
    with Cons.prems(4) m1 have "ctx' = setPosition c1 start" by simp
    with c1 Cons.prems(2) show ?thesis by (simp add: setPosition_def inRange_def)
  qed
qed

lemma match_inRange:
  "singleChars e \<Longrightarrow> inRange ctx \<Longrightarrow> match n e ctx = Some (b, ctx') \<Longrightarrow>
   inRange ctx' \<and> input ctx' = input ctx"
proof (induction n arbitrary: e ctx b ctx')
  case 0
  then show ?case by (simp add: match_0)
next
  case (Suc n)
  show ?case
  proof (cases e)
    case (CharacterExpression c)
    with Suc.prems show ?thesis
      by (auto simp: match_Character advance_def inRange_def getCurrentChar_def
          split: if_splits)
  next
    case DotExpression
    with Suc.prems show ?thesis
      by (auto simp: match_Dot advance_def inRange_def isAtEnd_def split: if_splits)
  next
    case (SequenceExpression es)
    from Suc.prems have loop: "sequenceLoop (match n) es (getPosition ctx) ctx = Some (b, ctx')"
      unfolding SequenceExpression by (simp add: match_Sequence)
    have elems: "inRange c' \<and> input c' = input c"
      if "x \<in> set es" "inRange c" "match n x c = Some (b, c')" for x c b c'
    proof -
      from that(1) Suc.prems(1) have "singleChars x"
        unfolding SequenceExpression by (simp add: list_all_iff)
      from Suc.IH [OF this that(2,3)] show ?thesis .
    qed
    have st: "getPosition ctx \<le> length (input ctx)"
      using Suc.prems(2) by (simp add: inRange_def getPosition_def)
    show ?thesis
      by (rule sequenceLoop_inRange [OF elems st Suc.prems(2) loop])
  next
    case (AlternationExpression l r)
    from Suc.prems(1) have wl: "singleChars l" and wr: "singleChars r"
      unfolding AlternationExpression by simp_all
    from Suc.prems obtain ok c1 where l: "match n l ctx = Some (ok, c1)"
      unfolding AlternationExpression by (auto simp: match_Alternation split: option.splits)
    have i: "inRange c1 \<and> input c1 = input ctx"
      by (rule Suc.IH [OF wl Suc.prems(2) l])
    show ?thesis
    proof (cases ok)
      case True
      with Suc.prems l i show ?thesis unfolding AlternationExpression
        by (auto simp: match_Alternation)
    next
      case False
      with Suc.prems l have r: "match n r (setPosition c1 (getPosition ctx)) = Some (b, ctx')"
        unfolding AlternationExpression by (simp add: match_Alternation)
      have inr: "inRange (setPosition c1 (getPosition ctx))"
        using i Suc.prems(2) by (simp add: inRange_def setPosition_def getPosition_def)
      have "inRange ctx' \<and> input ctx' = input (setPosition c1 (getPosition ctx))"
        by (rule Suc.IH [OF wr inr r])
      with i show ?thesis by (simp add: setPosition_def)
    qed
  next
    case (ZeroOrMoreExpression e')
    from Suc.prems(1) have we: "singleChars e'" and ws: "singleChars (ZeroOrMoreExpression e')"
      unfolding ZeroOrMoreExpression by simp_all
    from Suc.prems obtain ok c1 where l: "match n e' ctx = Some (ok, c1)"
      unfolding ZeroOrMoreExpression by (auto simp: match_ZeroOrMore split: option.splits)
    have i: "inRange c1 \<and> input c1 = input ctx"
      by (rule Suc.IH [OF we Suc.prems(2) l])
    show ?thesis
    proof (cases ok)
      case True
      with Suc.prems l have again: "match n (ZeroOrMoreExpression e') c1 = Some (b, ctx')"
        unfolding ZeroOrMoreExpression by (simp add: match_ZeroOrMore)
      from i have inr: "inRange c1" by simp
      have "inRange ctx' \<and> input ctx' = input c1"
        by (rule Suc.IH [OF ws inr again])
      with i show ?thesis by simp
    next
      case False
      with Suc.prems l i show ?thesis unfolding ZeroOrMoreExpression
        by (auto simp: match_ZeroOrMore)
    qed
  qed
qed

lemma test_true_iff:
  "test n p s = Some True \<longleftrightarrow>
   (\<exists>ctx'. match n (parsePattern p) (newRegexContext s) = Some (True, ctx') \<and>
           position ctx' = length s)"
proof -
  have "position ctx' = length s \<longleftrightarrow> isAtEnd ctx'"
    if "match n (parsePattern p) (newRegexContext s) = Some (b, ctx')" for b ctx'
  proof -
    have "inRange (newRegexContext s)" by (simp add: inRange_def newRegexContext_def)
    from match_inRange [OF parsePattern_singleChars this that]
    show ?thesis by (auto simp: inRange_def isAtEnd_def newRegexContext_def)
  qed
  then show ?thesis
    by (auto simp: test_def split: option.splits)
qed

text \<open>A call of \<open>test\<close> returns at most one boolean.\<close>

lemma test_returns_deterministic:
  assumes "test_returns p s b" and "test_returns p s b'"
  shows "b = b'"
proof -
  from assms obtain n k where n: "test n p s = Some b" and k: "test k p s = Some b'"
    by (auto simp: test_returns_def)
  from n obtain ok c where mn: "match n (parsePattern p) (newRegexContext s) = Some (ok, c)"
    and b: "b = (ok \<and> isAtEnd c)"
    by (auto simp: test_def split: option.splits)
  from k obtain ok' c' where mk: "match k (parsePattern p) (newRegexContext s) = Some (ok', c')"
    and b': "b' = (ok' \<and> isAtEnd c')"
    by (auto simp: test_def split: option.splits)
  from match_deterministic [OF mn mk] b b' show ?thesis by simp
qed

lemma test_examples:
  "test 12 ''a*b'' ''aaab'' = Some True"
  "test 12 ''a*b'' ''b'' = Some True"
  "test 12 ''a*b'' ''c'' = Some False"
  "test 12 ''a.c'' ''abc'' = Some True"
  "test 12 ''a|b'' ''a'' = Some True"
  "test 12 ''a|b'' ''b'' = Some True"
  by code_simp+

text \<open>
  C1: for every pattern and input, \<open>test\<close> returns true if and only if the
  match of the compiled pattern from cursor 0 succeeds and leaves the cursor
  at the length of the input (the whole input is consumed; no search for a
  substring); and \<open>test\<close> returns true on \<open>a*b\<close> with \<open>aaab\<close> and with \<open>b\<close>,
  false on \<open>a*b\<close> with \<open>c\<close>, true on \<open>a.c\<close> with \<open>abc\<close>, and true on \<open>a|b\<close>
  with \<open>a\<close> and with \<open>b\<close>.
\<close>

theorem test_full_match:
  "(test_returns pattern inp True \<longleftrightarrow>
      (\<exists>fuel ctx'. match fuel (parsePattern pattern) (newRegexContext inp) = Some (True, ctx') \<and>
                    position ctx' = length inp)) \<and>
   test_returns ''a*b'' ''aaab'' True \<and>
   test_returns ''a*b'' ''b'' True \<and>
   test_returns ''a*b'' ''c'' False \<and>
   test_returns ''a.c'' ''abc'' True \<and>
   test_returns ''a|b'' ''a'' True \<and>
   test_returns ''a|b'' ''b'' True"
proof -
  have "test_returns pattern inp True \<longleftrightarrow>
      (\<exists>fuel ctx'. match fuel (parsePattern pattern) (newRegexContext inp) = Some (True, ctx') \<and>
                    position ctx' = length inp)"
    unfolding test_returns_def test_true_iff ..
  moreover have "test_returns ''a*b'' ''aaab'' True" "test_returns ''a*b'' ''b'' True"
    "test_returns ''a*b'' ''c'' False" "test_returns ''a.c'' ''abc'' True"
    "test_returns ''a|b'' ''a'' True" "test_returns ''a|b'' ''b'' True"
    unfolding test_returns_def using test_examples by blast+
  ultimately show ?thesis by blast
qed

text \<open>
  On a tree without a star of a star, every call of \<open>match\<close> returns, and
  so does \<open>test\<close>.
\<close>

lemma star_of_step_returns:
  assumes step: "\<And>c. \<exists>b c'. match 1 e c = Some (b, c') \<and>
                   (b \<longrightarrow> position c < length (input c) \<and> c' = advance c)"
  shows "\<exists>n res. match n (ZeroOrMoreExpression e) ctx = Some res"
proof (induction "length (input ctx) - position ctx" arbitrary: ctx rule: less_induct)
  case less
  from step [of ctx] obtain b c' where
    m: "match 1 e ctx = Some (b, c')" and
    adv: "b \<Longrightarrow> position ctx < length (input ctx) \<and> c' = advance ctx"
    by blast
  show ?case
  proof (cases b)
    case False
    with m have "match (Suc 1) (ZeroOrMoreExpression e) ctx = Some (True, c')"
      by (simp add: match_ZeroOrMore)
    then show ?thesis by blast
  next
    case True
    with adv have p: "position ctx < length (input ctx)" and c': "c' = advance ctx" by simp_all
    from p have "length (input (advance ctx)) - position (advance ctx)
                 < length (input ctx) - position ctx"
      by (simp add: advance_def)
    from less [OF this] obtain n res where
      n: "match n (ZeroOrMoreExpression e) (advance ctx) = Some res" by blast
    have n': "match (max n 1) (ZeroOrMoreExpression e) (advance ctx) = Some res"
      using n by (rule match_mono) simp
    from m True c' have "match 1 e ctx = Some (True, advance ctx)" by simp
    then have m': "match (max n 1) e ctx = Some (True, advance ctx)"
      by (rule match_mono) simp
    from m' n' have "match (Suc (max n 1)) (ZeroOrMoreExpression e) ctx = Some res"
      by (simp add: match_ZeroOrMore)
    then show ?thesis by blast
  qed
qed

lemma character_step:
  "length ch = 1 \<Longrightarrow> \<exists>b c'. match 1 (CharacterExpression ch) c = Some (b, c') \<and>
     (b \<longrightarrow> position c < length (input c) \<and> c' = advance c)"
  by (auto simp: match_Character getCurrentChar_def)

lemma dot_step:
  "\<exists>b c'. match 1 DotExpression c = Some (b, c') \<and>
     (b \<longrightarrow> position c < length (input c) \<and> c' = advance c)"
  by (auto simp: match_Dot isAtEnd_def)

lemma sequenceLoop_returns:
  assumes elems: "\<And>x c. x \<in> set es \<Longrightarrow> inRange c \<Longrightarrow>
                    \<exists>n b c'. match n x c = Some (b, c') \<and> inRange c'"
  shows "inRange ctx \<Longrightarrow> \<exists>n res. sequenceLoop (match n) es start ctx = Some res"
  using elems
proof (induction es arbitrary: ctx)
  case Nil
  have "sequenceLoop (match 0) [] start ctx = Some (True, ctx)" by simp
  then show ?case by blast
next
  case (Cons x es)
  from Cons.prems(2) [of x ctx] Cons.prems(1) obtain n1 b c1 where
    m1: "match n1 x ctx = Some (b, c1)" and r1: "inRange c1" by auto
  show ?case
  proof (cases b)
    case False
    with m1 have "sequenceLoop (match n1) (x # es) start ctx = Some (False, setPosition c1 start)"
      by simp
    then show ?thesis by blast
  next
    case True
    have "\<exists>n res. sequenceLoop (match n) es start c1 = Some res"
    proof (rule Cons.IH [OF r1])
      fix y c assume "y \<in> set es" "inRange c"
      then show "\<exists>n b c'. match n y c = Some (b, c') \<and> inRange c'"
        using Cons.prems(2) [of y c] by simp
    qed
    then obtain n2 res where l2: "sequenceLoop (match n2) es start c1 = Some res" by blast
    have l2': "sequenceLoop (match (max n1 n2)) es start c1 = Some res"
      using l2
    proof (rule sequenceLoop_mono [rotated])
      fix e c r assume "match n2 e c = Some r"
      then show "match (max n1 n2) e c = Some r" by (rule match_mono) simp
    qed
    from m1 True have "match n1 x ctx = Some (True, c1)" by simp
    then have m1': "match (max n1 n2) x ctx = Some (True, c1)"
      by (rule match_mono) simp
    from m1' l2' have "sequenceLoop (match (max n1 n2)) (x # es) start ctx = Some res"
      by simp
    then show ?thesis by blast
  qed
qed

lemma match_returns:
  "singleChars e \<Longrightarrow> productive e \<Longrightarrow> inRange ctx \<Longrightarrow> \<exists>n res. match n e ctx = Some res"
proof (induction e arbitrary: ctx)
  case (CharacterExpression c)
  have "match (Suc 0) (CharacterExpression c) ctx =
          (if getCurrentChar ctx = c then Some (True, advance ctx) else Some (False, ctx))"
    by (rule match_Character)
  then show ?case by (metis (full_types))
next
  case DotExpression
  have "match (Suc 0) DotExpression ctx =
          (if \<not> isAtEnd ctx then Some (True, advance ctx) else Some (False, ctx))"
    by (rule match_Dot)
  then show ?case by (metis (full_types))
next
  case (SequenceExpression es)
  have "\<exists>n b c'. match n x c = Some (b, c') \<and> inRange c'"
    if x: "x \<in> set es" and c: "inRange c" for x c
  proof -
    from x SequenceExpression.prems have sx: "singleChars x" and px: "productive x"
      by (simp_all add: list_all_iff)
    from SequenceExpression.IH [OF x sx px c] obtain n b c' where
      m: "match n x c = Some (b, c')" by auto
    from match_inRange [OF sx c m] m show ?thesis by blast
  qed
  from sequenceLoop_returns [OF this SequenceExpression.prems(3)]
  obtain n res where "sequenceLoop (match n) es (getPosition ctx) ctx = Some res"
    by blast
  then have "match (Suc n) (SequenceExpression es) ctx = Some res"
    by (simp add: match_Sequence)
  then show ?case by blast
next
  case (AlternationExpression l r)
  from AlternationExpression.prems have sl: "singleChars l" and pl: "productive l"
    and sr: "singleChars r" and pr: "productive r" by simp_all
  from AlternationExpression.IH(1) [OF sl pl AlternationExpression.prems(3)]
  obtain n1 b c1 where m1: "match n1 l ctx = Some (b, c1)" by auto
  show ?case
  proof (cases b)
    case True
    with m1 have "match (Suc n1) (AlternationExpression l r) ctx = Some (True, c1)"
      by (simp add: match_Alternation)
    then show ?thesis by blast
  next
    case False
    from match_inRange [OF sl AlternationExpression.prems(3) m1]
    have "inRange (setPosition c1 (getPosition ctx))"
      using AlternationExpression.prems(3)
      by (simp add: inRange_def setPosition_def getPosition_def)
    from AlternationExpression.IH(2) [OF sr pr this]
    obtain n2 res where m2: "match n2 r (setPosition c1 (getPosition ctx)) = Some res" by auto
    from m1 False have "match n1 l ctx = Some (False, c1)" by simp
    then have m1': "match (max n1 n2) l ctx = Some (False, c1)"
      by (rule match_mono) simp
    have m2': "match (max n1 n2) r (setPosition c1 (getPosition ctx)) = Some res"
      using m2 by (rule match_mono) simp
    from m1' m2' have "match (Suc (max n1 n2)) (AlternationExpression l r) ctx = Some res"
      by (simp add: match_Alternation)
    then show ?thesis by blast
  qed
next
  case (ZeroOrMoreExpression e)
  show ?case
  proof (cases e)
    case (CharacterExpression ch)
    with ZeroOrMoreExpression.prems(1) have len: "length ch = 1" by simp
    show ?thesis unfolding CharacterExpression
      by (rule star_of_step_returns) (rule character_step [OF len])
  next
    case DotExpression
    show ?thesis unfolding DotExpression
      by (rule star_of_step_returns) (rule dot_step)
  qed (use ZeroOrMoreExpression.prems(2) in simp_all)
qed

lemma test_returns_productive:
  assumes "productive (parsePattern pattern)"
  shows "\<exists>b. test_returns pattern inp b"
proof -
  have "inRange (newRegexContext inp)" by (simp add: inRange_def newRegexContext_def)
  from match_returns [OF parsePattern_singleChars assms this]
  obtain n b c where "match n (parsePattern pattern) (newRegexContext inp) = Some (b, c)"
    by auto
  then have "test n pattern inp = Some (b \<and> isAtEnd c)" by (simp add: test_def)
  then show ?thesis unfolding test_returns_def by blast
qed

lemma nested_star_diverges:
  "match n (ZeroOrMoreExpression (ZeroOrMoreExpression e)) ctx = None"
proof (induction n arbitrary: ctx)
  case 0
  then show ?case by (simp add: match_0)
next
  case (Suc n)
  then show ?case
    using ZeroOrMore_never_fails [of n e ctx]
    by (auto simp: match_ZeroOrMore [of n "ZeroOrMoreExpression e"] split: option.splits)
qed

text \<open>
  C2 (the code at the failing input): for the pattern \<open>a**\<close> and every
  input, \<open>test\<close> returns nothing, whatever the fuel: the pattern compiles to
  a \<open>ZeroOrMoreExpression\<close> of a \<open>ZeroOrMoreExpression\<close>, the inner loop
  always returns true, and the outer loop never ends.
\<close>

theorem test_nested_star_never_returns:
  "test fuel ''a**'' inp = None \<and> \<not> test_returns ''a**'' inp b"
proof -
  have "test n ''a**'' inp = None" for n
  proof (cases n)
    case 0
    then show ?thesis by (simp add: test_def match_0)
  next
    case (Suc k)
    then show ?thesis
      by (simp add: test_def parsePattern_def match_Sequence nested_star_diverges)
  qed
  then show ?thesis by (simp add: test_returns_def)
qed

text \<open>
  C8: for every expression tree and every context, if \<open>match\<close> returns false
  then the cursor after the call is the cursor before the call.
\<close>

theorem match_failure_restores_position:
  "match fuel e ctx = Some (False, ctx') \<Longrightarrow> getPosition ctx' = getPosition ctx"
  unfolding getPosition_def by (rule match_failure_position)

theorem match_failure_restores_position_witness:
  "match 6 (parsePattern ''ab|ad'') \<lparr>input = ''zac'', position = 1\<rparr> =
     Some (False, \<lparr>input = ''zac'', position = 1\<rparr>) \<and>
   getPosition \<lparr>input = ''zac'', position = 1\<rparr> = getPosition \<lparr>input = ''zac'', position = 1\<rparr>"
proof -
  have m: "match 6 (parsePattern ''ab|ad'') \<lparr>input = ''zac'', position = 1\<rparr> =
     Some (False, \<lparr>input = ''zac'', position = 1\<rparr>)"
    by code_simp
  from m match_failure_restores_position [OF m] show ?thesis by simp
qed

text \<open>
  C10: the empty pattern compiles to the empty sequence, which succeeds on
  every context without moving the cursor, and \<open>test\<close> on the empty pattern
  returns true if and only if the input is the empty string.
\<close>

theorem test_empty_pattern:
  "parsePattern [] = SequenceExpression [] \<and>
   match (Suc fuel) (SequenceExpression []) ctx = Some (True, ctx) \<and>
   test (Suc (Suc fuel)) [] inp = Some (inp = []) \<and>
   (test_returns [] inp True \<longleftrightarrow> inp = [])"
proof -
  have p: "parsePattern [] = SequenceExpression []"
    by (simp add: parsePattern_def)
  have m: "match (Suc k) (SequenceExpression []) c = Some (True, c)" for k c
    by (simp add: match_Sequence)
  have t: "test (Suc (Suc k)) [] inp = Some (inp = [])" for k
    by (simp add: test_def p match_Sequence isAtEnd_def newRegexContext_def)
  have "test_returns [] inp True \<longleftrightarrow> inp = []"
  proof
    assume "test_returns [] inp True"
    moreover have "test_returns [] inp (inp = [])"
      unfolding test_returns_def using t by blast
    ultimately show "inp = []" using test_returns_deterministic by blast
  next
    assume "inp = []"
    with t [of 0] show "test_returns [] inp True"
      unfolding test_returns_def by auto
  qed
  with p m t show ?thesis by blast
qed

end
